theory Spec2Isabelle
  imports Complex_Main "HOL-Library.List_Lexorder"
begin

section \<open>Python values\<close>

text \<open>
  A Python \<open>str\<close> is a sequence of code points, \<open>bytes\<close> a sequence of octets.
  String literals of the source are ASCII and are written through \<open>ascii\<close>.
\<close>

type_synonym pystr = "nat list"

type_synonym bytes = "char list"

definition ascii :: "string \<Rightarrow> pystr" where
  "ascii s = map of_char s"

text \<open>
  The values that reach the client: what \<open>json\<close> decodes a body to, and what a caller
  passes as an argument. A \<open>dict\<close> is an association list with string keys (insertion
  order kept, keys distinct). A \<open>float\<close> is carried as the number it denotes; the client
  never computes with one.
\<close>

datatype pyval =
    PNone
  | PBool bool
  | PInt int
  | PFloat real
  | PStr pystr
  | PList "pyval list"
  | PDict "(pystr \<times> pyval) list"

text \<open>
  The exceptions of the source. \<open>ValueError\<close> carries the message of the four raises of
  \<open>_validate_api_credentials\<close>; \<open>ExchangeError\<close> is \<open>Exception(data['error'])\<close> with its
  argument; \<open>JSONDecodeError\<close> is the \<open>ValueError\<close> that \<open>response.json()\<close> raises and
  \<open>HTTPError\<close> the one of \<open>raise_for_status\<close> with the status code; \<open>MinOfEmpty\<close> is the
  \<open>ValueError\<close> of \<open>min\<close> on an empty sequence; \<open>LibraryError\<close> is a failure inside the
  HTTP library (an invalid URL, a body that does not serialise, a lost connection).
\<close>

datatype error =
    ValueError pystr
  | KeyError pystr
  | TypeError
  | UnicodeEncodeError
  | JSONDecodeError
  | HTTPError int
  | ExchangeError pyval
  | MinOfEmpty
  | LibraryError nat

text \<open>Truth value testing (\<open>not x\<close>, \<open>if x:\<close>).\<close>

fun truthy :: "pyval \<Rightarrow> bool" where
  "truthy PNone = False"
| "truthy (PBool b) = b"
| "truthy (PInt i) = (i \<noteq> 0)"
| "truthy (PFloat r) = (r \<noteq> 0)"
| "truthy (PStr s) = (s \<noteq> [])"
| "truthy (PList xs) = (xs \<noteq> [])"
| "truthy (PDict d) = (d \<noteq> [])"

text \<open>\<open>isinstance(x, str)\<close>.\<close>

fun is_str :: "pyval \<Rightarrow> bool" where
  "is_str (PStr s) = True"
| "is_str v = False"

section \<open>The client\<close>

text \<open>The fields that \<open>__init__\<close> stores (the session is the library's).\<close>

record client =
  api_endpoint :: pystr
  api_key :: pystr
  api_secret :: pystr
  subaccount_name :: "pystr option"

text \<open>\<open>_validate_api_credentials\<close>: four checks in the source's order.\<close>

definition validate_api_credentials :: "pyval \<Rightarrow> pyval \<Rightarrow> error + unit" where
  "validate_api_credentials key secret =
     (if \<not> truthy key then Inl (ValueError (ascii ''API key cannot be empty.''))
      else if \<not> is_str key then Inl (ValueError (ascii ''API key must be in a valid string format.''))
      else if \<not> truthy secret then Inl (ValueError (ascii ''API secret cannot be empty.''))
      else if \<not> is_str secret then Inl (ValueError (ascii ''API secret must be in a valid string format.''))
      else Inr ())"

text \<open>The code points of a value that passed the \<open>isinstance\<close> check.\<close>

fun str_of :: "pyval \<Rightarrow> pystr" where
  "str_of (PStr s) = s"
| "str_of v = []"

text \<open>\<open>FtxClient.__init__\<close>: validate, then store the four arguments.\<close>

definition init :: "pystr \<Rightarrow> pyval \<Rightarrow> pyval \<Rightarrow> pystr option \<Rightarrow> error + client" where
  "init endpoint key secret subaccount =
     (case validate_api_credentials key secret of
        Inl e \<Rightarrow> Inl e
      | Inr u \<Rightarrow> Inr \<lparr>api_endpoint = endpoint, api_key = str_of key,
                       api_secret = str_of secret, subaccount_name = subaccount\<rparr>)"

section \<open>Text: decimal numbers, upper case, UTF-8, hexadecimal\<close>

text \<open>\<open>str(n)\<close> for an \<open>int\<close>: the decimal digits, with a minus sign below zero.\<close>

fun str_nat :: "nat \<Rightarrow> pystr" where
  "str_nat n = (if n < 10 then [48 + n] else str_nat (n div 10) @ [48 + n mod 10])"

declare str_nat.simps [simp del]

definition str_int :: "int \<Rightarrow> pystr" where
  "str_int i = (if i < 0 then 45 # str_nat (nat (- i)) else str_nat (nat i))"

text \<open>
  \<open>str.upper\<close> on the letters a to z. The HTTP library upper-cases the method of a
  request; the client's methods are the literals \<open>'GET'\<close> and \<open>'POST'\<close>.
\<close>

definition upper_char :: "nat \<Rightarrow> nat" where
  "upper_char c = (if 97 \<le> c \<and> c \<le> 122 then c - 32 else c)"

definition upper :: "pystr \<Rightarrow> pystr" where
  "upper s = map upper_char s"

text \<open>
  \<open>str.encode()\<close>: UTF-8, strict. A surrogate code point (U+D800 to U+DFFF) has no
  encoding and raises \<open>UnicodeEncodeError\<close>; a number from 0x110000 on is no code point
  of a \<open>str\<close> and is refused the same way.
\<close>

definition utf8_char :: "nat \<Rightarrow> bytes option" where
  "utf8_char c =
     (if c < 0x80 then Some [char_of c]
      else if c < 0x800 then Some [char_of (0xC0 + c div 64), char_of (0x80 + c mod 64)]
      else if c < 0x10000 then
        (if 0xD800 \<le> c \<and> c \<le> 0xDFFF then None
         else Some [char_of (0xE0 + c div 4096), char_of (0x80 + c div 64 mod 64),
                    char_of (0x80 + c mod 64)])
      else if c < 0x110000 then
        Some [char_of (0xF0 + c div 262144), char_of (0x80 + c div 4096 mod 64),
              char_of (0x80 + c div 64 mod 64), char_of (0x80 + c mod 64)]
      else None)"

fun encode :: "pystr \<Rightarrow> error + bytes" where
  "encode [] = Inr []"
| "encode (c # cs) =
     (case utf8_char c of
        None \<Rightarrow> Inl UnicodeEncodeError
      | Some bs \<Rightarrow> (case encode cs of Inl e \<Rightarrow> Inl e | Inr r \<Rightarrow> Inr (bs @ r)))"

text \<open>
  \<open>bytes.decode('utf-8')\<close> where the bytes are well-formed UTF-8 (shortest form, no
  surrogate, at most U+10FFFF). \<open>None\<close> stands for input that is not: there
  \<open>urllib.parse.unquote\<close> substitutes U+FFFD, which this development does not follow.
\<close>

definition is_cont :: "char \<Rightarrow> bool" where
  "is_cont b = (0x80 \<le> (of_char b :: nat) \<and> (of_char b :: nat) < 0xC0)"

definition cont_bits :: "char \<Rightarrow> nat" where
  "cont_bits b = of_char b - 0x80"

fun utf8_decode :: "bytes \<Rightarrow> pystr option" where
  "utf8_decode [] = Some []"
| "utf8_decode (b # bs) =
     (let n = (of_char b :: nat) in
      if n < 0x80 then map_option (Cons n) (utf8_decode bs)
      else if n < 0xC0 then None
      else if n < 0xE0 then
        (case bs of
           b1 # r \<Rightarrow>
             (let c = (n - 0xC0) * 64 + cont_bits b1 in
              if is_cont b1 \<and> 0x80 \<le> c then map_option (Cons c) (utf8_decode r) else None)
         | _ \<Rightarrow> None)
      else if n < 0xF0 then
        (case bs of
           b1 # b2 # r \<Rightarrow>
             (let c = (n - 0xE0) * 4096 + cont_bits b1 * 64 + cont_bits b2 in
              if is_cont b1 \<and> is_cont b2 \<and> 0x800 \<le> c \<and> \<not> (0xD800 \<le> c \<and> c \<le> 0xDFFF)
              then map_option (Cons c) (utf8_decode r) else None)
         | _ \<Rightarrow> None)
      else if n < 0xF8 then
        (case bs of
           b1 # b2 # b3 # r \<Rightarrow>
             (let c = (n - 0xF0) * 262144 + cont_bits b1 * 4096 + cont_bits b2 * 64 + cont_bits b3 in
              if is_cont b1 \<and> is_cont b2 \<and> is_cont b3 \<and> 0x10000 \<le> c \<and> c < 0x110000
              then map_option (Cons c) (utf8_decode r) else None)
         | _ \<Rightarrow> None)
      else None)"

text \<open>\<open>hexdigest()\<close>: two lower-case hexadecimal digits for each byte of the digest.\<close>

definition hex_lower :: "nat \<Rightarrow> nat" where
  "hex_lower d = (if d < 10 then 48 + d else 87 + d)"

definition hexdigest :: "bytes \<Rightarrow> pystr" where
  "hexdigest d = concat (map (\<lambda>b. [hex_lower (of_char b div 16), hex_lower (of_char b mod 16)]) d)"

section \<open>Percent-encoding\<close>

text \<open>
  \<open>urllib.parse.quote(string)\<close> with its defaults (\<open>safe='/'\<close>, UTF-8, strict): the
  empty string is returned as it is; otherwise the string is encoded and every byte
  outside letters, digits and \<open>_.-~/\<close> becomes \<open>%XX\<close> with upper-case digits.
\<close>

definition always_safe :: "nat \<Rightarrow> bool" where
  "always_safe n =
     ((65 \<le> n \<and> n \<le> 90) \<or> (97 \<le> n \<and> n \<le> 122) \<or> (48 \<le> n \<and> n \<le> 57)
      \<or> n = 95 \<or> n = 46 \<or> n = 45 \<or> n = 126)"

definition hex_upper :: "nat \<Rightarrow> nat" where
  "hex_upper d = (if d < 10 then 48 + d else 55 + d)"

definition quote_byte :: "char \<Rightarrow> pystr" where
  "quote_byte b =
     (let n = (of_char b :: nat) in
      if always_safe n \<or> n = 47 then [n] else [37, hex_upper (n div 16), hex_upper (n mod 16)])"

definition quote :: "pystr \<Rightarrow> error + pystr" where
  "quote s =
     (if s = [] then Inr []
      else case encode s of Inl e \<Rightarrow> Inl e | Inr bs \<Rightarrow> Inr (concat (map quote_byte bs)))"

text \<open>
  Percent-decoding, as \<open>urllib.parse.unquote\<close> does it on ASCII text: \<open>%\<close> followed by
  two hexadecimal digits (either case) is the byte they denote, any other character is
  itself, and the bytes are then read as UTF-8. \<open>None\<close> stands for the input this
  development does not follow: text with a code point outside ASCII (kept as it is by
  \<open>unquote\<close>) and bytes that are not well-formed UTF-8.
\<close>

definition hex_value :: "nat \<Rightarrow> nat option" where
  "hex_value c =
     (if 48 \<le> c \<and> c \<le> 57 then Some (c - 48)
      else if 65 \<le> c \<and> c \<le> 70 then Some (c - 55)
      else if 97 \<le> c \<and> c \<le> 102 then Some (c - 87)
      else None)"

fun unquote_to_bytes :: "pystr \<Rightarrow> bytes" where
  "unquote_to_bytes [] = []"
| "unquote_to_bytes (c # cs) =
     (if c = 37 then
        (case cs of
           h1 # h2 # rest \<Rightarrow>
             (case (hex_value h1, hex_value h2) of
                (Some a, Some b) \<Rightarrow> char_of (16 * a + b) # unquote_to_bytes rest
              | _ \<Rightarrow> char_of c # unquote_to_bytes cs)
         | _ \<Rightarrow> char_of c # unquote_to_bytes cs)
      else char_of c # unquote_to_bytes cs)"

definition unquote :: "pystr \<Rightarrow> pystr option" where
  "unquote s = (if list_all (\<lambda>c. c < 128) s then utf8_decode (unquote_to_bytes s) else None)"

section \<open>The HTTP library and the exchange\<close>

text \<open>
  \<open>Request(method, url, params=..., json=...)\<close> with its \<open>headers\<close> dict, and what
  \<open>prepare()\<close> makes of it.
\<close>

record request =
  r_method :: pystr
  r_url :: pystr
  r_params :: "pyval option"
  r_json :: "pyval option"
  r_headers :: "pystr \<rightharpoonup> pystr"

record prepared =
  p_method :: pystr
  p_path_url :: pystr
  p_headers :: "pystr \<rightharpoonup> pystr"
  p_body :: "bytes option"

text \<open>
  A response: its status code, and what \<open>response.json()\<close> returns (\<open>None\<close> when the
  body is not JSON and the call raises a \<open>ValueError\<close>).
\<close>

record response =
  status_code :: int
  json :: "pyval option"

text \<open>
  What the client takes from outside the repository: HMAC-SHA256 (the digest of a
  message under a key), the parts of \<open>requests\<close> that resolve the path and query of a
  URL, serialise a JSON body and settle the headers of the wire, and the round trip
  to the exchange.
\<close>

record lib =
  hmac_sha256 :: "bytes \<Rightarrow> bytes \<Rightarrow> bytes"
  path_url :: "pystr \<Rightarrow> pyval option \<Rightarrow> error + pystr"
  json_dumps :: "pyval \<Rightarrow> error + bytes"
  wire_headers :: "(pystr \<rightharpoonup> pystr) \<Rightarrow> pyval option \<Rightarrow> error + (pystr \<rightharpoonup> pystr)"
  send :: "prepared \<Rightarrow> error + response"

text \<open>
  \<open>Request.prepare()\<close>, in the library's order: the method upper-cased, the URL with
  the query parameters, the headers, the body (the serialised \<open>json\<close> argument, none
  without one). Method, path and body are computed from the method, the URL, the
  parameters and the \<open>json\<close> argument alone.
\<close>

definition prepare :: "lib \<Rightarrow> request \<Rightarrow> error + prepared" where
  "prepare L r =
     (case path_url L (r_url r) (r_params r) of
        Inl e \<Rightarrow> Inl e
      | Inr pu \<Rightarrow>
          (case wire_headers L (r_headers r) (r_json r) of
             Inl e \<Rightarrow> Inl e
           | Inr hs \<Rightarrow>
               (case r_json r of
                  None \<Rightarrow> Inr \<lparr>p_method = upper (r_method r), p_path_url = pu,
                                   p_headers = hs, p_body = None\<rparr>
                | Some j \<Rightarrow>
                    (case json_dumps L j of
                       Inl e \<Rightarrow> Inl e
                     | Inr b \<Rightarrow> Inr \<lparr>p_method = upper (r_method r), p_path_url = pu,
                                        p_headers = hs, p_body = Some b\<rparr>))))"

section \<open>Signing, dispatch, normalisation\<close>

text \<open>
  The \<open>signature_payload\<close> of \<open>_sign_request\<close>: the f-string of timestamp, method and
  path, encoded, and the body appended when \<open>prepared.body\<close> is truthy.
\<close>

definition signature_payload :: "int \<Rightarrow> prepared \<Rightarrow> error + bytes" where
  "signature_payload ts p =
     (case encode (str_int ts @ p_method p @ p_path_url p) of
        Inl e \<Rightarrow> Inl e
      | Inr payload \<Rightarrow>
          (case p_body p of
             None \<Rightarrow> Inr payload
           | Some b \<Rightarrow> if b \<noteq> [] then Inr (payload @ b) else Inr payload))"

text \<open>
  \<open>_sign_request\<close>. \<open>ts\<close> is \<open>int(time.time() * 1000)\<close>, read from the clock. The
  request comes back with its headers set.
\<close>

definition sign_request :: "lib \<Rightarrow> client \<Rightarrow> int \<Rightarrow> request \<Rightarrow> error + request" where
  "sign_request L C ts req =
     (case prepare L req of
        Inl e \<Rightarrow> Inl e
      | Inr p \<Rightarrow>
          (case signature_payload ts p of
             Inl e \<Rightarrow> Inl e
           | Inr payload \<Rightarrow>
               (case encode (api_secret C) of
                  Inl e \<Rightarrow> Inl e
                | Inr key \<Rightarrow>
                    (let signature = hexdigest (hmac_sha256 L key payload);
                         hs = (r_headers req)
                                (ascii ''FTX-KEY'' \<mapsto> api_key C,
                                 ascii ''FTX-SIGN'' \<mapsto> signature,
                                 ascii ''FTX-TS'' \<mapsto> str_int ts)
                     in case subaccount_name C of
                          None \<Rightarrow> Inr (req\<lparr>r_headers := hs\<rparr>)
                        | Some name \<Rightarrow>
                            if name \<noteq> [] then
                              (case quote name of
                                 Inl e \<Rightarrow> Inl e
                               | Inr q \<Rightarrow> Inr (req\<lparr>r_headers := hs(ascii ''FTX-SUBACCOUNT'' \<mapsto> q)\<rparr>))
                            else Inr (req\<lparr>r_headers := hs\<rparr>)))))"

text \<open>Subscription with a string key, \<open>x['k']\<close>.\<close>

fun getitem :: "pyval \<Rightarrow> pystr \<Rightarrow> error + pyval" where
  "getitem (PDict d) k = (case map_of d k of None \<Rightarrow> Inl (KeyError k) | Some v \<Rightarrow> Inr v)"
| "getitem v k = Inl TypeError"

text \<open>
  \<open>_process_response\<close>. \<open>raise_for_status\<close> raises for a status from 400 to 599; for
  any other status the \<open>ValueError\<close> of the parser is raised again.
\<close>

definition process_response :: "response \<Rightarrow> error + pyval" where
  "process_response resp =
     (case json resp of
        None \<Rightarrow>
          if 400 \<le> status_code resp \<and> status_code resp < 600
          then Inl (HTTPError (status_code resp))
          else Inl JSONDecodeError
      | Some data \<Rightarrow>
          (case getitem data (ascii ''success'') of
             Inl e \<Rightarrow> Inl e
           | Inr s \<Rightarrow>
               if \<not> truthy s then
                 (case getitem data (ascii ''error'') of
                    Inl e \<Rightarrow> Inl e
                  | Inr m \<Rightarrow> Inl (ExchangeError m))
               else getitem data (ascii ''result'')))"

text \<open>The \<open>Request\<close> that \<open>_request\<close> builds from its arguments.\<close>

definition new_request :: "client \<Rightarrow> pystr \<Rightarrow> pystr \<Rightarrow> pyval option \<Rightarrow> pyval option \<Rightarrow> request" where
  "new_request C method path params json_arg =
     \<lparr>r_method = method, r_url = api_endpoint C @ path, r_params = params,
      r_json = json_arg, r_headers = Map.empty\<rparr>"

text \<open>
  The prepared request that \<open>_request\<close> hands to \<open>session.send\<close>: the signed request,
  prepared again.
\<close>

definition transmitted :: "lib \<Rightarrow> client \<Rightarrow> int \<Rightarrow> request \<Rightarrow> error + prepared" where
  "transmitted L C ts req =
     (case sign_request L C ts req of Inl e \<Rightarrow> Inl e | Inr req' \<Rightarrow> prepare L req')"

text \<open>\<open>_request\<close>, \<open>_get\<close> and \<open>_post\<close>.\<close>

definition request' :: "lib \<Rightarrow> client \<Rightarrow> int \<Rightarrow> pystr \<Rightarrow> pystr \<Rightarrow> pyval option \<Rightarrow> pyval option \<Rightarrow> error + pyval" where
  "request' L C ts method path params json_arg =
     (case transmitted L C ts (new_request C method path params json_arg) of
        Inl e \<Rightarrow> Inl e
      | Inr p \<Rightarrow> (case send L p of Inl e \<Rightarrow> Inl e | Inr resp \<Rightarrow> process_response resp))"

definition get' :: "lib \<Rightarrow> client \<Rightarrow> int \<Rightarrow> pystr \<Rightarrow> pyval option \<Rightarrow> error + pyval" where
  "get' L C ts path params = request' L C ts (ascii ''GET'') path params None"

definition post' :: "lib \<Rightarrow> client \<Rightarrow> int \<Rightarrow> pystr \<Rightarrow> pyval option \<Rightarrow> error + pyval" where
  "post' L C ts path params = request' L C ts (ascii ''POST'') path None params"

section \<open>Domain methods\<close>

text \<open>
  Iteration over a value, as a comprehension or \<open>min\<close> does it: the items of a list,
  the keys of a dict, the characters of a string; anything else is not iterable.
\<close>

fun py_iter :: "pyval \<Rightarrow> error + pyval list" where
  "py_iter (PList xs) = Inr xs"
| "py_iter (PDict d) = Inr (map (\<lambda>kv. PStr (fst kv)) d)"
| "py_iter (PStr s) = Inr (map (\<lambda>c. PStr [c]) s)"
| "py_iter v = Inl TypeError"

text \<open>
  \<open>a == b\<close> on these values. Numbers compare by value, and a \<open>bool\<close> is the integer
  0 or 1 (\<open>1 == True\<close> and \<open>0.0 == False\<close> hold); lists compare item by item; dicts
  have the same keys with equal values; values of two kinds are unequal.
\<close>

fun num_val :: "pyval \<Rightarrow> real option" where
  "num_val (PBool b) = Some (if b then 1 else 0)"
| "num_val (PInt i) = Some (of_int i)"
| "num_val (PFloat r) = Some r"
| "num_val v = None"

fun py_eq :: "pyval \<Rightarrow> pyval \<Rightarrow> bool" where
  "py_eq (PList xs) (PList ys) = list_all2 py_eq xs ys"
| "py_eq (PDict d) (PDict e) =
     (length d = length e \<and>
      list_all (\<lambda>kv. case map_of e (fst kv) of None \<Rightarrow> False | Some w \<Rightarrow> py_eq (snd kv) w) d)"
| "py_eq (PStr s) (PStr t) = (s = t)"
| "py_eq PNone PNone = True"
| "py_eq a b = (case (num_val a, num_val b) of (Some x, Some y) \<Rightarrow> x = y | _ \<Rightarrow> False)"

text \<open>
  A list comprehension \<open>[x for x in xs if cond(x)]\<close> whose condition may raise: the
  items are tested in order and the first exception ends the evaluation.
\<close>

fun comprehension :: "(pyval \<Rightarrow> error + bool) \<Rightarrow> pyval list \<Rightarrow> error + pyval list" where
  "comprehension cond [] = Inr []"
| "comprehension cond (x # xs) =
     (case cond x of
        Inl e \<Rightarrow> Inl e
      | Inr b \<Rightarrow>
          (case comprehension cond xs of
             Inl e \<Rightarrow> Inl e
           | Inr r \<Rightarrow> Inr (if b then x # r else r)))"

text \<open>
  The condition of \<open>get_all_futures\<close>; \<open>and\<close> evaluates its right operand only when
  the left one is true.
\<close>

definition keep_future :: "pyval \<Rightarrow> error + bool" where
  "keep_future future =
     (case getitem future (ascii ''type'') of
        Inl e \<Rightarrow> Inl e
      | Inr t \<Rightarrow>
          if \<not> py_eq t (PStr (ascii ''future'')) then Inr False
          else
            (case getitem future (ascii ''enabled'') of
               Inl e \<Rightarrow> Inl e
             | Inr en \<Rightarrow>
                 if \<not> py_eq en (PBool True) then Inr False
                 else
                   (case getitem future (ascii ''expired'') of
                      Inl e \<Rightarrow> Inl e
                    | Inr ex \<Rightarrow> Inr (py_eq ex (PBool False)))))"

definition get_all_futures :: "lib \<Rightarrow> client \<Rightarrow> int \<Rightarrow> error + pyval list" where
  "get_all_futures L C ts =
     (case get' L C ts (ascii ''futures'') None of
        Inl e \<Rightarrow> Inl e
      | Inr futures \<Rightarrow>
          (case py_iter futures of
             Inl e \<Rightarrow> Inl e
           | Inr fs \<Rightarrow> comprehension keep_future fs))"

text \<open>An optional argument: \<open>None\<close> when the caller leaves it out, and the default then.\<close>

definition default :: "'a \<Rightarrow> 'a option \<Rightarrow> 'a" where
  "default d x = (case x of None \<Rightarrow> d | Some v \<Rightarrow> v)"

definition has_underlying :: "pystr \<Rightarrow> pyval \<Rightarrow> error + bool" where
  "has_underlying underlying future =
     (case getitem future (ascii ''underlying'') of
        Inl e \<Rightarrow> Inl e
      | Inr u \<Rightarrow> Inr (py_eq u (PStr underlying)))"

definition get_all_underlying_futures :: "lib \<Rightarrow> client \<Rightarrow> int \<Rightarrow> pystr option \<Rightarrow> error + pyval list" where
  "get_all_underlying_futures L C ts underlying =
     (case get_all_futures L C ts of
        Inl e \<Rightarrow> Inl e
      | Inr all_futures \<Rightarrow>
          comprehension (has_underlying (default (ascii ''BTC'') underlying)) all_futures)"

text \<open>
  \<open>a < b\<close>: numbers by value, strings by code points and lists by items, both
  lexicographically (the first pair of unequal items decides). \<open>None\<close>, dicts and
  operands of two kinds raise \<open>TypeError\<close>.
\<close>

fun lex_lt :: "nat list \<Rightarrow> nat list \<Rightarrow> bool" where
  "lex_lt [] [] = False"
| "lex_lt [] (y # ys) = True"
| "lex_lt (x # xs) [] = False"
| "lex_lt (x # xs) (y # ys) = (x < y \<or> (x = y \<and> lex_lt xs ys))"

fun py_lt :: "pyval \<Rightarrow> pyval \<Rightarrow> error + bool"
  and list_lt :: "pyval list \<Rightarrow> pyval list \<Rightarrow> error + bool" where
  "py_lt (PStr s) (PStr t) = Inr (lex_lt s t)"
| "py_lt (PList xs) (PList ys) = list_lt xs ys"
| "py_lt a b =
     (case (num_val a, num_val b) of (Some x, Some y) \<Rightarrow> Inr (x < y) | _ \<Rightarrow> Inl TypeError)"
| "list_lt [] [] = Inr False"
| "list_lt [] (y # ys) = Inr True"
| "list_lt (x # xs) [] = Inr False"
| "list_lt (x # xs) (y # ys) = (if py_eq x y then list_lt xs ys else py_lt x y)"

text \<open>
  \<open>min(items, key=lambda future: future['expiry'])\<close>: the key of each item is taken in
  turn and compared with the key of the best item so far, which is replaced only by a
  strictly smaller one; an empty sequence raises.
\<close>

fun min_loop :: "pyval \<Rightarrow> pyval \<Rightarrow> pyval list \<Rightarrow> error + pyval" where
  "min_loop best best_key [] = Inr best"
| "min_loop best best_key (x # xs) =
     (case getitem x (ascii ''expiry'') of
        Inl e \<Rightarrow> Inl e
      | Inr k \<Rightarrow>
          (case py_lt k best_key of
             Inl e \<Rightarrow> Inl e
           | Inr lt \<Rightarrow> if lt then min_loop x k xs else min_loop best best_key xs))"

definition min_by_expiry :: "pyval list \<Rightarrow> error + pyval" where
  "min_by_expiry items =
     (case items of
        [] \<Rightarrow> Inl MinOfEmpty
      | x # xs \<Rightarrow>
          (case getitem x (ascii ''expiry'') of
             Inl e \<Rightarrow> Inl e
           | Inr k \<Rightarrow> min_loop x k xs))"

definition get_next_underlying_future :: "lib \<Rightarrow> client \<Rightarrow> int \<Rightarrow> pystr option \<Rightarrow> error + pyval" where
  "get_next_underlying_future L C ts underlying =
     (case get_all_underlying_futures L C ts underlying of
        Inl e \<Rightarrow> Inl e
      | Inr all_underlying_futures \<Rightarrow> min_by_expiry all_underlying_futures)"

definition get_next_underlying_future_name :: "lib \<Rightarrow> client \<Rightarrow> int \<Rightarrow> pystr option \<Rightarrow> error + pyval" where
  "get_next_underlying_future_name L C ts underlying =
     (case get_all_underlying_futures L C ts underlying of
        Inl e \<Rightarrow> Inl e
      | Inr all_underlying_futures \<Rightarrow>
          (case min_by_expiry all_underlying_futures of
             Inl e \<Rightarrow> Inl e
           | Inr future \<Rightarrow> getitem future (ascii ''name'')))"

text \<open>
  \<open>get_all_markets\<close>, \<open>get_single_market\<close> (the market, a string, is written into the
  path) and \<open>get_single_market_price\<close>.
\<close>

definition get_all_markets :: "lib \<Rightarrow> client \<Rightarrow> int \<Rightarrow> error + pyval" where
  "get_all_markets L C ts = get' L C ts (ascii ''markets'') None"

definition get_single_market :: "lib \<Rightarrow> client \<Rightarrow> int \<Rightarrow> pystr \<Rightarrow> error + pyval" where
  "get_single_market L C ts market = get' L C ts (ascii ''markets/'' @ market) None"

definition get_single_market_price :: "lib \<Rightarrow> client \<Rightarrow> int \<Rightarrow> pystr \<Rightarrow> error + pyval" where
  "get_single_market_price L C ts market =
     (case get_single_market L C ts market of
        Inl e \<Rightarrow> Inl e
      | Inr m \<Rightarrow> getitem m (ascii ''price''))"

text \<open>
  \<open>place_order\<close>: \<open>market\<close>, \<open>side\<close> and \<open>size\<close> are required, the other six arguments
  have defaults. The dict goes to \<open>_post\<close> as the \<open>json\<close> argument.
\<close>

definition place_order ::
  "lib \<Rightarrow> client \<Rightarrow> int \<Rightarrow> pyval \<Rightarrow> pyval \<Rightarrow> pyval \<Rightarrow> pyval option \<Rightarrow> pyval option \<Rightarrow>
   pyval option \<Rightarrow> pyval option \<Rightarrow> pyval option \<Rightarrow> pyval option \<Rightarrow> error + pyval" where
  "place_order L C ts market side size' price type' reduce_only ioc post_only client_id =
     post' L C ts (ascii ''orders'')
       (Some (PDict
          [(ascii ''market'', market),
           (ascii ''side'', side),
           (ascii ''price'', default PNone price),
           (ascii ''size'', size'),
           (ascii ''type'', default (PStr (ascii ''market'')) type'),
           (ascii ''reduceOnly'', default (PBool False) reduce_only),
           (ascii ''ioc'', default (PBool False) ioc),
           (ascii ''postOnly'', default (PBool False) post_only),
           (ascii ''clientId'', default PNone client_id)]))"

text \<open>\<open>get_open_orders\<close>: the optional market is the one query parameter.\<close>

definition get_open_orders :: "lib \<Rightarrow> client \<Rightarrow> int \<Rightarrow> pyval option \<Rightarrow> error + pyval" where
  "get_open_orders L C ts market =
     get' L C ts (ascii ''orders'') (Some (PDict [(ascii ''market'', default PNone market)]))"

text \<open>\<open>get_order_history\<close>: five optional arguments, passed to \<open>_get\<close> as \<open>params\<close>.\<close>

definition get_order_history ::
  "lib \<Rightarrow> client \<Rightarrow> int \<Rightarrow> pyval option \<Rightarrow> pyval option \<Rightarrow> pyval option \<Rightarrow>
   pyval option \<Rightarrow> pyval option \<Rightarrow> error + pyval" where
  "get_order_history L C ts market side order_type start_time end_time =
     get' L C ts (ascii ''orders/history'')
       (Some (PDict
          [(ascii ''market'', default PNone market),
           (ascii ''side'', default PNone side),
           (ascii ''orderType'', default (PStr (ascii ''market'')) order_type),
           (ascii ''start_time'', default PNone start_time),
           (ascii ''end_time'', default PNone end_time)]))"

section \<open>Vocabulary of the specification\<close>

text \<open>
  The field of a JSON object, and the words of the specification about futures: an
  entry has the fields the client reads, with boolean flags; it is listed when its
  type is \<open>"future"\<close>, it is enabled and it is not expired; it tracks an underlying
  asset; its expiry, when it is a number.
\<close>

definition field :: "pyval \<Rightarrow> pystr \<Rightarrow> pyval option" where
  "field v k = (case v of PDict d \<Rightarrow> map_of d k | _ \<Rightarrow> None)"

definition is_bool :: "pyval option \<Rightarrow> bool" where
  "is_bool v = (v = Some (PBool True) \<or> v = Some (PBool False))"

definition future_record :: "pyval \<Rightarrow> bool" where
  "future_record f =
     (field f (ascii ''type'') \<noteq> None \<and> is_bool (field f (ascii ''enabled''))
      \<and> is_bool (field f (ascii ''expired'')))"

definition listed :: "pyval \<Rightarrow> bool" where
  "listed f =
     (field f (ascii ''type'') = Some (PStr (ascii ''future''))
      \<and> field f (ascii ''enabled'') = Some (PBool True)
      \<and> field f (ascii ''expired'') = Some (PBool False))"

definition tracks :: "pystr \<Rightarrow> pyval \<Rightarrow> bool" where
  "tracks u f = (field f (ascii ''underlying'') = Some (PStr u))"

definition expiry_num :: "pyval \<Rightarrow> real option" where
  "expiry_num f = (case field f (ascii ''expiry'') of None \<Rightarrow> None | Some v \<Rightarrow> num_val v)"

text \<open>
  An expiry that is a string; \<open>f\<close> expires no later than \<open>g\<close>, for two numbers by
  value and for two strings in the lexicographic order of their code points; a list
  of futures whose expiries are all numbers or all strings.
\<close>

definition expiry_str :: "pyval \<Rightarrow> pystr option" where
  "expiry_str f = (case field f (ascii ''expiry'') of Some (PStr s) \<Rightarrow> Some s | _ \<Rightarrow> None)"

definition expiry_le :: "pyval \<Rightarrow> pyval \<Rightarrow> bool" where
  "expiry_le f g =
     (case (field f (ascii ''expiry''), field g (ascii ''expiry'')) of
        (Some a, Some b) \<Rightarrow>
          (case (num_val a, num_val b) of
             (Some x, Some y) \<Rightarrow> x \<le> y
           | _ \<Rightarrow> (case (a, b) of (PStr s, PStr t) \<Rightarrow> s \<le> t | _ \<Rightarrow> False))
      | _ \<Rightarrow> False)"

definition comparable_expiries :: "pyval list \<Rightarrow> bool" where
  "comparable_expiries fs =
     (list_all (\<lambda>f. expiry_num f \<noteq> None) fs \<or> list_all (\<lambda>f. expiry_str f \<noteq> None) fs)"

text \<open>The number that a string of decimal digits denotes.\<close>

definition is_digit :: "nat \<Rightarrow> bool" where
  "is_digit c = (48 \<le> c \<and> c \<le> 57)"

definition decimal_value :: "pystr \<Rightarrow> nat" where
  "decimal_value s = foldl (\<lambda>a c. 10 * a + (c - 48)) 0 s"

text \<open>A code point that UTF-8 encodes: below 0x110000 and no surrogate.\<close>

definition scalar :: "nat \<Rightarrow> bool" where
  "scalar c = (c < 0x110000 \<and> \<not> (0xD800 \<le> c \<and> c \<le> 0xDFFF))"

section \<open>A library for examples\<close>

text \<open>
  A stand-in for the library, to run the client on concrete requests: the digest is
  the key followed by the message, the path is the URL after \<open>https://ftx.com\<close>, every
  JSON body is \<open>{}\<close>, the headers go to the wire as they are, and the exchange answers
  every request with the canned response.
\<close>

definition canned_lib :: "response \<Rightarrow> lib" where
  "canned_lib resp =
     \<lparr>hmac_sha256 = (\<lambda>key msg. key @ msg),
      path_url = (\<lambda>url params. Inr (drop 15 url)),
      json_dumps = (\<lambda>j. Inr ''{}''),
      wire_headers = (\<lambda>hs j. Inr hs),
      send = (\<lambda>p. Inr resp)\<rparr>"

definition demo_client :: "pystr option \<Rightarrow> client" where
  "demo_client sub =
     \<lparr>api_endpoint = ascii ''https://ftx.com/api/'', api_key = ascii ''key'',
      api_secret = ascii ''secret'', subaccount_name = sub\<rparr>"

definition demo_future :: "string \<Rightarrow> string \<Rightarrow> bool \<Rightarrow> bool \<Rightarrow> string \<Rightarrow> int \<Rightarrow> pyval" where
  "demo_future name type' enabled expired underlying expiry =
     PDict [(ascii ''name'', PStr (ascii name)),
            (ascii ''type'', PStr (ascii type')),
            (ascii ''enabled'', PBool enabled),
            (ascii ''expired'', PBool expired),
            (ascii ''underlying'', PStr (ascii underlying)),
            (ascii ''expiry'', PInt expiry)]"

definition demo_futures :: "pyval list" where
  "demo_futures =
     [demo_future ''BTC-0924'' ''future'' True False ''BTC'' 3000,
      demo_future ''BTC-1225'' ''future'' True True ''BTC'' 500,
      demo_future ''BTC-PERP'' ''perpetual'' True False ''BTC'' 0,
      demo_future ''BTC-0326'' ''future'' True False ''BTC'' 1000,
      demo_future ''ETH-0326'' ''future'' True False ''ETH'' 800,
      demo_future ''BTC-0625'' ''future'' False False ''BTC'' 700,
      demo_future ''BTC-0626'' ''future'' True False ''BTC'' 2000]"

definition demo_response :: "pyval \<Rightarrow> response" where
  "demo_response result =
     \<lparr>status_code = 200,
      json = Some (PDict [(ascii ''success'', PBool True), (ascii ''result'', result)])\<rparr>"

section \<open>Construction\<close>

lemma ascii_eq_iff [simp]: "ascii a = ascii b \<longleftrightarrow> a = b"
  unfolding ascii_def by (simp add: inj_map_eq_map inj_on_def)

text \<open>
  C5. Construction raises a validation error (a \<open>ValueError\<close>) exactly when the key or
  the secret is empty or not a string, that is, unless both are non-empty strings; and
  it returns the client exactly when both are non-empty strings.
\<close>

theorem init_validation:
  "((\<exists>msg. init endpoint key secret sub = Inl (ValueError msg)) \<longleftrightarrow>
      (key = PStr [] \<or> \<not> is_str key \<or> secret = PStr [] \<or> \<not> is_str secret))
   \<and> ((\<exists>c. init endpoint key secret sub = Inr c) \<longleftrightarrow>
      (\<exists>k s. key = PStr k \<and> k \<noteq> [] \<and> secret = PStr s \<and> s \<noteq> []))
   \<and> (\<forall>c. init endpoint key secret sub = Inr c \<longrightarrow>
      c = \<lparr>api_endpoint = endpoint, api_key = str_of key, api_secret = str_of secret,
           subaccount_name = sub\<rparr>)"
  unfolding init_def validate_api_credentials_def
  by (cases key; cases secret) auto

theorem init_validation_witness:
  "(\<exists>msg. init (ascii ''https://ftx.com/api/'') (PStr []) (PStr (ascii ''s'')) None = Inl (ValueError msg))
   \<and> (\<exists>msg. init (ascii ''https://ftx.com/api/'') (PStr (ascii ''k'')) (PStr []) None = Inl (ValueError msg))
   \<and> (\<exists>msg. init (ascii ''https://ftx.com/api/'') (PInt 7) (PStr (ascii ''s'')) None = Inl (ValueError msg))
   \<and> (\<exists>msg. init (ascii ''https://ftx.com/api/'') (PStr (ascii ''k'')) PNone None = Inl (ValueError msg))
   \<and> init (ascii ''https://ftx.com/api/'') (PStr (ascii ''k'')) (PStr (ascii ''s'')) None
       = Inr \<lparr>api_endpoint = ascii ''https://ftx.com/api/'', api_key = ascii ''k'',
              api_secret = ascii ''s'', subaccount_name = None\<rparr>"
proof -
  let ?e = "ascii ''https://ftx.com/api/''"
  have a: "\<exists>msg. init ?e (PStr []) (PStr (ascii ''s'')) None = Inl (ValueError msg)"
    using init_validation [of ?e "PStr []" "PStr (ascii ''s'')" None] by simp
  have b: "\<exists>msg. init ?e (PStr (ascii ''k'')) (PStr []) None = Inl (ValueError msg)"
    using init_validation [of ?e "PStr (ascii ''k'')" "PStr []" None] by simp
  have c3: "\<exists>msg. init ?e (PInt 7) (PStr (ascii ''s'')) None = Inl (ValueError msg)"
    using init_validation [of ?e "PInt 7" "PStr (ascii ''s'')" None] by simp
  have d: "\<exists>msg. init ?e (PStr (ascii ''k'')) PNone None = Inl (ValueError msg)"
    using init_validation [of ?e "PStr (ascii ''k'')" PNone None] by simp
  have "\<exists>c. init ?e (PStr (ascii ''k'')) (PStr (ascii ''s'')) None = Inr c"
    using init_validation [of ?e "PStr (ascii ''k'')" "PStr (ascii ''s'')" None]
    by (simp add: ascii_def)
  then obtain c where ok: "init ?e (PStr (ascii ''k'')) (PStr (ascii ''s'')) None = Inr c" ..
  then have "c = \<lparr>api_endpoint = ?e, api_key = ascii ''k'', api_secret = ascii ''s'',
                   subaccount_name = None\<rparr>"
    using init_validation [of ?e "PStr (ascii ''k'')" "PStr (ascii ''s'')" None] by simp
  with a b c3 d ok show ?thesis by simp
qed


section \<open>UTF-8 and percent-encoding round trips\<close>

lemma of_char_char_of: "n < 256 \<Longrightarrow> (of_char (char_of n) :: nat) = n"
  by (simp add: of_char_of)

lemma radix64: "(a::nat) * 64 + r = q \<Longrightarrow> a * (64 * k) + r * k = q * k"
  by (auto simp: algebra_simps)

lemma split3: "(c::nat) div 4096 * 4096 + c div 64 mod 64 * 64 + c mod 64 = c"
proof -
  have 1: "c div 4096 = c div 64 div 64" using div_mult2_eq [of c 64 64] by simp
  have 2: "c div 64 div 64 * 64 + c div 64 mod 64 = c div 64" by (rule div_mult_mod_eq)
  have "c div 4096 * (64 * 64) + c div 64 mod 64 * 64 = c div 64 * 64"
    unfolding 1 using 2 by (rule radix64)
  moreover have "c div 64 * 64 + c mod 64 = c" by (rule div_mult_mod_eq)
  ultimately show ?thesis by simp
qed

lemma split4:
  "(c::nat) div 262144 * 262144 + c div 4096 mod 64 * 4096 + c div 64 mod 64 * 64 + c mod 64 = c"
proof -
  have 1: "c div 262144 = c div 4096 div 64" using div_mult2_eq [of c 4096 64] by simp
  have 2: "c div 4096 div 64 * 64 + c div 4096 mod 64 = c div 4096" by (rule div_mult_mod_eq)
  have "c div 262144 * (64 * 4096) + c div 4096 mod 64 * 4096 = c div 4096 * 4096"
    unfolding 1 using 2 by (rule radix64)
  then show ?thesis using split3 [of c] by simp
qed

lemma cont_byte: "r < 64 \<Longrightarrow> is_cont (char_of (0x80 + r)) \<and> cont_bits (char_of (0x80 + r)) = r"
  by (simp add: is_cont_def cont_bits_def of_char_char_of)

lemma lead_byte: "a + q < 256 \<Longrightarrow> (of_char (char_of (a + q)) :: nat) = a + q"
  by (rule of_char_char_of)

lemma decode1:
  "(of_char b :: nat) < 0x80 \<Longrightarrow> utf8_decode (b # r) = map_option (Cons (of_char b)) (utf8_decode r)"
  by (simp add: Let_def)

lemma decode2:
  assumes "(of_char b :: nat) = 0xC0 + q" "q < 32" "is_cont b1" "0x80 \<le> q * 64 + cont_bits b1"
  shows "utf8_decode (b # b1 # r) = map_option (Cons (q * 64 + cont_bits b1)) (utf8_decode r)"
  using assms by (simp add: Let_def)

lemma decode3:
  assumes "(of_char b :: nat) = 0xE0 + q" "q < 16" "is_cont b1" "is_cont b2"
    "c = q * 4096 + cont_bits b1 * 64 + cont_bits b2" "0x800 \<le> c" "\<not> (0xD800 \<le> c \<and> c \<le> 0xDFFF)"
  shows "utf8_decode (b # b1 # b2 # r) = map_option (Cons c) (utf8_decode r)"
  using assms by (simp add: Let_def)

lemma decode4:
  assumes "(of_char b :: nat) = 0xF0 + q" "q < 8" "is_cont b1" "is_cont b2" "is_cont b3"
    "c = q * 262144 + cont_bits b1 * 4096 + cont_bits b2 * 64 + cont_bits b3"
    "0x10000 \<le> c" "c < 0x110000"
  shows "utf8_decode (b # b1 # b2 # b3 # r) = map_option (Cons c) (utf8_decode r)"
  using assms by (simp add: Let_def)

lemma utf8_decode_char:
  assumes "utf8_char c = Some bs"
  shows "utf8_decode (bs @ rest) = map_option (Cons c) (utf8_decode rest)"
proof -
  consider (one) "c < 0x80"
    | (two) "0x80 \<le> c" "c < 0x800"
    | (three) "0x800 \<le> c" "c < 0x10000" "\<not> (0xD800 \<le> c \<and> c \<le> 0xDFFF)"
    | (four) "0x10000 \<le> c" "c < 0x110000"
    | (none) "(0xD800 \<le> c \<and> c \<le> 0xDFFF) \<or> 0x110000 \<le> c"
    by linarith
  then show ?thesis
  proof cases
    case one
    then have bs: "bs = [char_of c]" using assms by (simp add: utf8_char_def)
    have "(of_char (char_of c) :: nat) = c" using one by (intro of_char_char_of) simp
    then show ?thesis unfolding bs using one decode1 [of "char_of c" rest] by simp
  next
    case two
    then have bs: "bs = [char_of (0xC0 + c div 64), char_of (0x80 + c mod 64)]"
      using assms by (simp add: utf8_char_def)
    have q: "c div 64 < 32" using two by simp
    have a: "(of_char (char_of (0xC0 + c div 64)) :: nat) = 0xC0 + c div 64"
      using q by (intro lead_byte) simp
    have b: "is_cont (char_of (0x80 + c mod 64))" "cont_bits (char_of (0x80 + c mod 64)) = c mod 64"
      using cont_byte [of "c mod 64"] by simp_all
    have v: "c div 64 * 64 + cont_bits (char_of (0x80 + c mod 64)) = c"
      unfolding b(2) by (rule div_mult_mod_eq)
    show ?thesis unfolding bs
      using decode2 [OF a q b(1), of rest] two(1) unfolding v by simp
  next
    case three
    then have bs: "bs = [char_of (0xE0 + c div 4096), char_of (0x80 + c div 64 mod 64),
                         char_of (0x80 + c mod 64)]"
      using assms by (auto simp: utf8_char_def split: if_splits)
    have q: "c div 4096 < 16" using three by simp
    have a: "(of_char (char_of (0xE0 + c div 4096)) :: nat) = 0xE0 + c div 4096"
      using q by (intro lead_byte) simp
    have b1: "is_cont (char_of (0x80 + c div 64 mod 64))"
         "cont_bits (char_of (0x80 + c div 64 mod 64)) = c div 64 mod 64"
      using cont_byte [of "c div 64 mod 64"] by simp_all
    have b2: "is_cont (char_of (0x80 + c mod 64))" "cont_bits (char_of (0x80 + c mod 64)) = c mod 64"
      using cont_byte [of "c mod 64"] by simp_all
    have v: "c = c div 4096 * 4096 + cont_bits (char_of (0x80 + c div 64 mod 64)) * 64
               + cont_bits (char_of (0x80 + c mod 64))"
      unfolding b1(2) b2(2) by (rule split3 [symmetric])
    show ?thesis unfolding bs
      using decode3 [OF a q b1(1) b2(1) v three(1) three(3), of rest] by simp
  next
    case four
    then have bs: "bs = [char_of (0xF0 + c div 262144), char_of (0x80 + c div 4096 mod 64),
              char_of (0x80 + c div 64 mod 64), char_of (0x80 + c mod 64)]"
      using assms by (simp add: utf8_char_def)
    have q: "c div 262144 < 8" using four by simp
    have a: "(of_char (char_of (0xF0 + c div 262144)) :: nat) = 0xF0 + c div 262144"
      using q by (intro lead_byte) simp
    have b1: "is_cont (char_of (0x80 + c div 4096 mod 64))"
         "cont_bits (char_of (0x80 + c div 4096 mod 64)) = c div 4096 mod 64"
      using cont_byte [of "c div 4096 mod 64"] by simp_all
    have b2: "is_cont (char_of (0x80 + c div 64 mod 64))"
         "cont_bits (char_of (0x80 + c div 64 mod 64)) = c div 64 mod 64"
      using cont_byte [of "c div 64 mod 64"] by simp_all
    have b3: "is_cont (char_of (0x80 + c mod 64))" "cont_bits (char_of (0x80 + c mod 64)) = c mod 64"
      using cont_byte [of "c mod 64"] by simp_all
    have v: "c = c div 262144 * 262144 + cont_bits (char_of (0x80 + c div 4096 mod 64)) * 4096
               + cont_bits (char_of (0x80 + c div 64 mod 64)) * 64
               + cont_bits (char_of (0x80 + c mod 64))"
      unfolding b1(2) b2(2) b3(2) by (rule split4 [symmetric])
    show ?thesis unfolding bs
      using decode4 [OF a q b1(1) b2(1) b3(1) v four(1) four(2), of rest] by simp
  next
    case none
    then show ?thesis using assms by (auto simp: utf8_char_def)
  qed
qed

lemma encode_decode: "encode s = Inr bs \<Longrightarrow> utf8_decode bs = Some s"
proof (induction s arbitrary: bs)
  case Nil
  then show ?case by simp
next
  case (Cons c cs)
  then obtain b r where b: "utf8_char c = Some b" and r: "encode cs = Inr r" and bs: "bs = b @ r"
    by (auto split: option.splits sum.splits)
  from Cons.IH [OF r] have "utf8_decode r = Some cs" .
  then show ?case unfolding bs by (simp add: utf8_decode_char [OF b])
qed

lemma hex_value_upper: "d < 16 \<Longrightarrow> hex_value (hex_upper d) = Some d"
  by (auto simp: hex_value_def hex_upper_def)

lemma hex_upper_ascii: "d < 16 \<Longrightarrow> hex_upper d < 128"
  by (simp add: hex_upper_def)

lemma of_char_less_256: "(of_char (b::char) :: nat) < 256"
proof -
  have "(of_char b :: nat) = of_char (char_of (of_char b :: nat))" by simp
  also have "\<dots> = (of_char b :: nat) mod 256" by (simp only: of_char_of)
  finally have "(of_char b :: nat) = (of_char b :: nat) mod 256" .
  moreover have "(of_char b :: nat) mod 256 < 256" by simp
  ultimately show ?thesis by simp
qed

lemma quote_byte_ascii: "list_all (\<lambda>c. c < 128) (quote_byte b)"
proof -
  have "(of_char b :: nat) div 16 < 16"
    using of_char_less_256 [of b] by (intro less_mult_imp_div_less) simp
  then show ?thesis
    by (auto simp: quote_byte_def Let_def always_safe_def hex_upper_ascii)
qed

lemma unquote_quote_byte: "unquote_to_bytes (quote_byte b @ rest) = b # unquote_to_bytes rest"
proof (cases "always_safe (of_char b) \<or> (of_char b :: nat) = 47")
  case True
  then have "(of_char b :: nat) \<noteq> 37" by (auto simp: always_safe_def)
  with True show ?thesis by (simp add: quote_byte_def)
next
  case False
  have d: "(of_char b :: nat) div 16 < 16"
    using of_char_less_256 [of b] by (intro less_mult_imp_div_less) simp
  have m: "(of_char b :: nat) mod 16 < 16" by simp
  have c: "char_of (16 * ((of_char b :: nat) div 16) + (of_char b :: nat) mod 16) = b" by simp
  have "quote_byte b = [37, hex_upper (of_char b div 16), hex_upper (of_char b mod 16)]"
    using False by (simp add: quote_byte_def Let_def)
  then show ?thesis
    by (simp add: hex_value_upper [OF d] hex_value_upper [OF m] c del: mult_div_mod_eq)
qed

lemma unquote_quote_bytes: "unquote_to_bytes (concat (map quote_byte bs)) = bs"
  by (induction bs) (simp_all add: unquote_quote_byte)

lemma quote_bytes_ascii: "list_all (\<lambda>c. c < 128) (concat (map quote_byte bs))"
  by (induction bs) (simp_all add: quote_byte_ascii)

lemma quote_unquote: "quote s = Inr q \<Longrightarrow> unquote q = Some s"
proof (cases "s = []")
  case True
  assume "quote s = Inr q"
  with True show ?thesis by (simp add: quote_def unquote_def)
next
  case False
  assume "quote s = Inr q"
  with False obtain bs where bs: "encode s = Inr bs" and q: "q = concat (map quote_byte bs)"
    by (auto simp: quote_def split: sum.splits)
  show ?thesis unfolding q unquote_def
    by (simp add: quote_bytes_ascii unquote_quote_bytes encode_decode [OF bs])
qed

lemma utf8_char_scalar: "utf8_char c \<noteq> None \<longleftrightarrow> scalar c"
  by (auto simp: utf8_char_def scalar_def)

lemma encode_returns: "(\<exists>bs. encode s = Inr bs) \<longleftrightarrow> list_all scalar s"
proof (induction s)
  case Nil
  show ?case by simp
next
  case (Cons c cs)
  show ?case
  proof (cases "utf8_char c")
    case None
    then show ?thesis using utf8_char_scalar [of c] by simp
  next
    case (Some b)
    then have "scalar c" using utf8_char_scalar [of c] by simp
    then show ?thesis using Some Cons.IH by (auto split: sum.splits)
  qed
qed

lemma encode_raises: "\<not> list_all scalar s \<Longrightarrow> encode s = Inl UnicodeEncodeError"
proof (induction s)
  case Nil
  then show ?case by simp
next
  case (Cons c cs)
  show ?case
  proof (cases "utf8_char c")
    case None
    then show ?thesis by simp
  next
    case (Some b)
    then have "scalar c" using utf8_char_scalar [of c] by simp
    with Cons.prems have "\<not> list_all scalar cs" by simp
    from Cons.IH [OF this] Some show ?thesis by simp
  qed
qed

lemma quote_returns: "list_all scalar s \<Longrightarrow> \<exists>q. quote s = Inr q"
  using encode_returns [of s] by (auto simp: quote_def)

lemma quote_raises: "\<not> list_all scalar s \<Longrightarrow> quote s = Inl UnicodeEncodeError"
proof -
  assume a: "\<not> list_all scalar s"
  then have "s \<noteq> []" by auto
  with encode_raises [OF a] show ?thesis by (simp add: quote_def)
qed

section \<open>Comprehensions and the minimum\<close>

lemma getitem_field:
  "getitem f k = (case field f k of None \<Rightarrow> (case f of PDict d \<Rightarrow> Inl (KeyError k) | _ \<Rightarrow> Inl TypeError) | Some v \<Rightarrow> Inr v)"
  by (cases f) (simp_all add: field_def split: option.splits)

lemma getitem_Some: "field f k = Some v \<Longrightarrow> getitem f k = Inr v"
  by (simp add: getitem_field)

lemma py_eq_str: "py_eq v (PStr s) \<longleftrightarrow> v = PStr s"
  by (cases v) auto

lemma py_eq_bool:
  "py_eq v (PBool b) \<longleftrightarrow>
     v = PBool b \<or> v = PInt (if b then 1 else 0) \<or> v = PFloat (if b then 1 else 0)"
  by (cases v) auto

lemma comprehension_filter:
  "\<forall>x\<in>set xs. cond x = Inr (P x) \<Longrightarrow> comprehension cond xs = Inr (filter P xs)"
  by (induction xs) simp_all

lemma keep_future_listed: "future_record f \<Longrightarrow> keep_future f = Inr (listed f)"
  unfolding future_record_def is_bool_def keep_future_def listed_def
  by (auto simp: getitem_Some py_eq_str)

lemma has_underlying_tracks:
  "field f (ascii ''underlying'') \<noteq> None \<Longrightarrow> has_underlying u f = Inr (tracks u f)"
  unfolding has_underlying_def tracks_def by (auto simp: getitem_Some py_eq_str)

lemma py_lt_num:
  "num_val a = Some x \<Longrightarrow> num_val b = Some y \<Longrightarrow> py_lt a b = Inr (x < y)"
  by (cases a; cases b) auto

lemma expiry_numD:
  "expiry_num f = Some x \<Longrightarrow> \<exists>v. getitem f (ascii ''expiry'') = Inr v \<and> num_val v = Some x"
  unfolding expiry_num_def by (auto simp: getitem_Some split: option.splits)

lemma lex_lt_less: "lex_lt s t \<longleftrightarrow> s < t"
  by (induction s t rule: lex_lt.induct) auto

lemma min_loop_ranked:
  fixes rank :: "pyval \<Rightarrow> 'o::linorder"
  assumes agree: "\<And>a b. K a \<Longrightarrow> K b \<Longrightarrow> py_lt a b = Inr (rank a < rank b)"
    and "\<forall>g\<in>set xs. \<exists>k. getitem g (ascii ''expiry'') = Inr k \<and> K k"
    and "K bk"
  shows "\<exists>m km. min_loop best bk xs = Inr m \<and> (m = best \<and> km = bk \<or> m \<in> set xs \<and> getitem m (ascii ''expiry'') = Inr km)
           \<and> K km \<and> rank km \<le> rank bk
           \<and> (\<forall>g\<in>set xs. \<forall>kg. getitem g (ascii ''expiry'') = Inr kg \<longrightarrow> rank km \<le> rank kg)"
  using assms(2,3)
proof (induction xs arbitrary: best bk)
  case Nil
  then show ?case by simp
next
  case (Cons x xs)
  from Cons.prems(1) obtain v where v: "getitem x (ascii ''expiry'') = Inr v" "K v" by auto
  have lt: "py_lt v bk = Inr (rank v < rank bk)" using v(2) Cons.prems(2) by (rule agree)
  have rest: "\<forall>g\<in>set xs. \<exists>k. getitem g (ascii ''expiry'') = Inr k \<and> K k"
    using Cons.prems(1) by simp
  show ?case
  proof (cases "rank v < rank bk")
    case True
    from Cons.IH [OF rest v(2), of x] obtain m km where
      m: "min_loop x v xs = Inr m"
         "m = x \<and> km = v \<or> m \<in> set xs \<and> getitem m (ascii ''expiry'') = Inr km"
         "K km" "rank km \<le> rank v"
         "\<forall>g\<in>set xs. \<forall>kg. getitem g (ascii ''expiry'') = Inr kg \<longrightarrow> rank km \<le> rank kg"
      by blast
    have "min_loop best bk (x # xs) = Inr m" using v(1) lt True m(1) by simp
    moreover have "m = best \<and> km = bk \<or> m \<in> set (x # xs) \<and> getitem m (ascii ''expiry'') = Inr km"
      using m(2) v(1) by auto
    moreover have "rank km \<le> rank bk" using m(4) True by simp
    moreover have "\<forall>g\<in>set (x # xs). \<forall>kg. getitem g (ascii ''expiry'') = Inr kg \<longrightarrow> rank km \<le> rank kg"
      using m(4,5) v(1) by simp
    ultimately show ?thesis using m(3) by blast
  next
    case False
    from Cons.IH [OF rest Cons.prems(2), of best] obtain m km where
      m: "min_loop best bk xs = Inr m"
         "m = best \<and> km = bk \<or> m \<in> set xs \<and> getitem m (ascii ''expiry'') = Inr km"
         "K km" "rank km \<le> rank bk"
         "\<forall>g\<in>set xs. \<forall>kg. getitem g (ascii ''expiry'') = Inr kg \<longrightarrow> rank km \<le> rank kg"
      by blast
    have "min_loop best bk (x # xs) = Inr m" using v(1) lt False m(1) by simp
    moreover have "m = best \<and> km = bk \<or> m \<in> set (x # xs) \<and> getitem m (ascii ''expiry'') = Inr km"
      using m(2) by auto
    moreover have "\<forall>g\<in>set (x # xs). \<forall>kg. getitem g (ascii ''expiry'') = Inr kg \<longrightarrow> rank km \<le> rank kg"
      using m(4,5) v(1) False by auto
    ultimately show ?thesis using m(3,4) by blast
  qed
qed

lemma min_by_expiry_ranked:
  fixes rank :: "pyval \<Rightarrow> 'o::linorder"
  assumes agree: "\<And>a b. K a \<Longrightarrow> K b \<Longrightarrow> py_lt a b = Inr (rank a < rank b)"
    and keys: "\<forall>g\<in>set xs. \<exists>k. getitem g (ascii ''expiry'') = Inr k \<and> K k"
    and "xs \<noteq> []"
  shows "\<exists>m km. min_by_expiry xs = Inr m \<and> m \<in> set xs \<and> getitem m (ascii ''expiry'') = Inr km \<and> K km
           \<and> (\<forall>g\<in>set xs. \<forall>kg. getitem g (ascii ''expiry'') = Inr kg \<longrightarrow> rank km \<le> rank kg)"
proof -
  from assms(3) obtain x ys where xs: "xs = x # ys" by (cases xs) auto
  from keys xs obtain v where v: "getitem x (ascii ''expiry'') = Inr v" "K v" by auto
  have "\<forall>g\<in>set ys. \<exists>k. getitem g (ascii ''expiry'') = Inr k \<and> K k" using keys xs by simp
  from min_loop_ranked [of K rank, OF agree this v(2), of x] obtain m km where
    m: "min_loop x v ys = Inr m"
       "m = x \<and> km = v \<or> m \<in> set ys \<and> getitem m (ascii ''expiry'') = Inr km"
       "K km" "rank km \<le> rank v"
       "\<forall>g\<in>set ys. \<forall>kg. getitem g (ascii ''expiry'') = Inr kg \<longrightarrow> rank km \<le> rank kg"
    by blast
  have "min_by_expiry xs = Inr m" using xs v(1) m(1) by (simp add: min_by_expiry_def)
  moreover have "m \<in> set xs \<and> getitem m (ascii ''expiry'') = Inr km" using m(2) v(1) xs by auto
  moreover have "\<forall>g\<in>set xs. \<forall>kg. getitem g (ascii ''expiry'') = Inr kg \<longrightarrow> rank km \<le> rank kg"
    using m(4,5) v(1) xs by simp
  ultimately show ?thesis using m(3) by blast
qed

lemma expiry_strD: "expiry_str f = Some s \<Longrightarrow> getitem f (ascii ''expiry'') = Inr (PStr s)"
  unfolding expiry_str_def by (auto simp: getitem_Some split: option.splits pyval.splits)

lemma min_by_expiry_least:
  assumes "comparable_expiries xs" and "xs \<noteq> []"
  shows "\<exists>m. min_by_expiry xs = Inr m \<and> m \<in> set xs \<and> (\<forall>g\<in>set xs. expiry_le m g)"
proof -
  from assms(1) consider (num) "\<forall>f\<in>set xs. expiry_num f \<noteq> None"
    | (str) "\<forall>f\<in>set xs. expiry_str f \<noteq> None"
    by (auto simp: comparable_expiries_def list_all_iff)
  then show ?thesis
  proof cases
    case num
    let ?K = "\<lambda>v. num_val v \<noteq> None"
    let ?rank = "\<lambda>v. the (num_val v)"
    have agree: "py_lt a b = Inr (?rank a < ?rank b)" if "?K a" "?K b" for a b
      using that py_lt_num [of a _ b] by auto
    have keys: "\<forall>g\<in>set xs. \<exists>k. getitem g (ascii ''expiry'') = Inr k \<and> ?K k"
      using num expiry_numD by fastforce
    from min_by_expiry_ranked [of ?K ?rank, OF agree keys assms(2)] obtain m v where
      m: "min_by_expiry xs = Inr m" "m \<in> set xs" "getitem m (ascii ''expiry'') = Inr v" "?K v"
         "\<forall>g\<in>set xs. \<forall>kg. getitem g (ascii ''expiry'') = Inr kg \<longrightarrow> ?rank v \<le> ?rank kg"
      by blast
    have fm: "field m (ascii ''expiry'') = Some v"
      using m(3) by (auto simp: getitem_field split: option.splits pyval.splits)
    have "\<forall>g\<in>set xs. expiry_le m g"
    proof
      fix g assume g: "g \<in> set xs"
      with num obtain kg where kg: "expiry_num g = Some kg" by auto
      from expiry_numD [OF kg] obtain w where
        w: "getitem g (ascii ''expiry'') = Inr w" "num_val w = Some kg" by blast
      have fg: "field g (ascii ''expiry'') = Some w"
        using w(1) by (auto simp: getitem_field split: option.splits pyval.splits)
      from m(5) g w(1) have "?rank v \<le> ?rank w" by blast
      with m(4) w(2) show "expiry_le m g" by (auto simp: expiry_le_def fm fg)
    qed
    with m(1,2) show ?thesis by blast
  next
    case str
    let ?K = "\<lambda>v. \<exists>s. v = PStr s"
    have agree: "py_lt a b = Inr (str_of a < str_of b)" if "?K a" "?K b" for a b
      using that by (auto simp: lex_lt_less)
    have keys: "\<forall>g\<in>set xs. \<exists>k. getitem g (ascii ''expiry'') = Inr k \<and> ?K k"
      using str expiry_strD by fastforce
    from min_by_expiry_ranked [of ?K str_of, OF agree keys assms(2)] obtain m v where
      m: "min_by_expiry xs = Inr m" "m \<in> set xs" "getitem m (ascii ''expiry'') = Inr v" "?K v"
         "\<forall>g\<in>set xs. \<forall>kg. getitem g (ascii ''expiry'') = Inr kg \<longrightarrow> str_of v \<le> str_of kg"
      by blast
    from m(4) obtain s where v: "v = PStr s" by blast
    have fm: "field m (ascii ''expiry'') = Some (PStr s)"
      using m(3) v by (auto simp: getitem_field split: option.splits pyval.splits)
    have "\<forall>g\<in>set xs. expiry_le m g"
    proof
      fix g assume g: "g \<in> set xs"
      with str obtain t where t: "expiry_str g = Some t" by auto
      from expiry_strD [OF t] have w: "getitem g (ascii ''expiry'') = Inr (PStr t)" .
      have fg: "field g (ascii ''expiry'') = Some (PStr t)"
        using w by (auto simp: getitem_field split: option.splits pyval.splits)
      from m(5) g w have "str_of v \<le> str_of (PStr t)" by blast
      then show "expiry_le m g" by (simp add: expiry_le_def fm fg v)
    qed
    with m(1,2) show ?thesis by blast
  qed
qed

lemma get_all_futures_listed:
  assumes "get' L C ts (ascii ''futures'') None = Inr (PList fs)"
    and "\<forall>f\<in>set fs. future_record f"
  shows "get_all_futures L C ts = Inr (filter listed fs)"
proof -
  have "comprehension keep_future fs = Inr (filter listed fs)"
    using assms(2) by (intro comprehension_filter) (simp add: keep_future_listed)
  with assms(1) show ?thesis by (simp add: get_all_futures_def)
qed

section \<open>Decimal strings, upper case, hexadecimal digests\<close>

lemma ascii_append: "ascii (a @ b) = ascii a @ ascii b"
  by (simp add: ascii_def)

lemma encode_append:
  "encode a = Inr x \<Longrightarrow> encode b = Inr y \<Longrightarrow> encode (a @ b) = Inr (x @ y)"
  by (induction a arbitrary: x) (auto split: option.splits sum.splits)

lemma encode_ascii: "list_all (\<lambda>c. (of_char c :: nat) < 128) s \<Longrightarrow> encode (ascii s) = Inr s"
  by (induction s) (simp_all add: ascii_def utf8_char_def)

lemma str_nat_digits: "list_all is_digit (str_nat n)"
proof (induction n rule: str_nat.induct)
  case (1 n)
  show ?case
  proof (cases "n < 10")
    case True
    then show ?thesis by (subst str_nat.simps) (simp add: is_digit_def)
  next
    case False
    have "is_digit (48 + n mod 10)" by (simp add: is_digit_def)
    with False 1 show ?thesis by (subst str_nat.simps) simp
  qed
qed

lemma decimal_value_snoc: "decimal_value (s @ [c]) = 10 * decimal_value s + (c - 48)"
  by (simp add: decimal_value_def)

lemma str_nat_value: "decimal_value (str_nat n) = n"
proof (induction n rule: str_nat.induct)
  case (1 n)
  show ?case
  proof (cases "n < 10")
    case True
    then show ?thesis by (subst str_nat.simps) (simp add: decimal_value_def)
  next
    case False
    with 1 have "decimal_value (str_nat (n div 10)) = n div 10" by simp
    with False show ?thesis by (subst str_nat.simps) (simp add: decimal_value_snoc)
  qed
qed

lemma str_int_decimal:
  "str_int i = (if i < 0 then 45 # str_nat (nat (- i)) else str_nat (nat i))
   \<and> list_all is_digit (str_nat (nat \<bar>i\<bar>)) \<and> int (decimal_value (str_nat (nat \<bar>i\<bar>))) = \<bar>i\<bar>"
  by (simp add: str_int_def str_nat_digits str_nat_value)

lemma hex_lower_range: "d < 16 \<Longrightarrow> (48 \<le> hex_lower d \<and> hex_lower d \<le> 57) \<or> (97 \<le> hex_lower d \<and> hex_lower d \<le> 102)"
  by (auto simp: hex_lower_def)

lemma hexdigest_lowercase:
  "list_all (\<lambda>c. (48 \<le> c \<and> c \<le> 57) \<or> (97 \<le> c \<and> c \<le> 102)) (hexdigest d)"
proof (induction d)
  case Nil
  show ?case by (simp add: hexdigest_def)
next
  case (Cons b bs)
  have "(of_char b :: nat) div 16 < 16"
    using of_char_less_256 [of b] by (intro less_mult_imp_div_less) simp
  from hex_lower_range [OF this] hex_lower_range [of "(of_char b :: nat) mod 16"] Cons
  show ?case by (simp add: hexdigest_def)
qed

lemma hexdigest_length: "length (hexdigest d) = 2 * length d"
  by (induction d) (simp_all add: hexdigest_def)

lemma upper_no_lowercase: "list_all (\<lambda>c. \<not> (97 \<le> c \<and> c \<le> 122)) (upper s)"
  by (induction s) (auto simp: upper_def upper_char_def)

lemma upper_methods: "upper (ascii ''GET'') = ascii ''GET''" "upper (ascii ''POST'') = ascii ''POST''"
  by (simp_all add: upper_def upper_char_def ascii_def)

lemma digits_scalar: "list_all is_digit s \<Longrightarrow> list_all scalar s"
  by (induction s) (auto simp: is_digit_def scalar_def)

lemma str_int_scalar: "list_all scalar (str_int ts)"
  using digits_scalar [OF str_nat_digits] by (simp add: str_int_def scalar_def)

lemma upper_scalar: "list_all scalar s \<Longrightarrow> list_all scalar (upper s)"
  by (induction s) (auto simp: upper_def upper_char_def scalar_def)

section \<open>The example library at work\<close>

lemma demo_ts: "str_int 1588591511721 = ascii ''1588591511721''"
  by (simp add: str_int_def str_nat.simps ascii_def)

lemma demo_secret: "encode (api_secret (demo_client sub)) = Inr ''secret''"
  by (simp add: demo_client_def ascii_def utf8_char_def char_of_eq_iff)

lemma demo_subaccount: "subaccount_name (demo_client s) = s"
  by (simp add: demo_client_def)

lemma demo_prepare_get:
  "prepare (canned_lib resp) (new_request (demo_client sub) (ascii ''GET'') (ascii ''markets'') None None)
   = Inr \<lparr>p_method = ascii ''GET'', p_path_url = ascii ''/api/markets'',
           p_headers = Map.empty, p_body = None\<rparr>"
  by (simp add: prepare_def canned_lib_def demo_client_def new_request_def upper_methods)
    (simp add: ascii_def)

lemma demo_prepare_post:
  "prepare (canned_lib resp)
     ((new_request (demo_client sub) (ascii ''POST'') (ascii ''orders'') None (Some j))\<lparr>r_headers := hs\<rparr>)
   = Inr \<lparr>p_method = ascii ''POST'', p_path_url = ascii ''/api/orders'',
           p_headers = hs, p_body = Some ''{}''\<rparr>"
  by (simp add: prepare_def canned_lib_def demo_client_def new_request_def upper_methods)
    (simp add: ascii_def)

lemma demo_payload_get:
  "encode (str_int 1588591511721 @ ascii ''GET'' @ ascii ''/api/markets'')
   = Inr ''1588591511721GET/api/markets''"
  by (simp add: demo_ts flip: ascii_append) (simp add: ascii_def utf8_char_def char_of_eq_iff)

lemma demo_payload_post:
  "encode (str_int 1588591511721 @ ascii ''POST'' @ ascii ''/api/orders'')
   = Inr ''1588591511721POST/api/orders''"
  by (simp add: demo_ts flip: ascii_append) (simp add: ascii_def utf8_char_def char_of_eq_iff)

lemma demo_sign_get:
  "\<exists>req'. sign_request (canned_lib resp) (demo_client None) 1588591511721
     (new_request (demo_client None) (ascii ''GET'') (ascii ''markets'') None None) = Inr req'"
  by (simp add: sign_request_def demo_prepare_get signature_payload_def demo_payload_get
      demo_secret) (simp add: demo_client_def)

lemma demo_sign_post:
  "\<exists>hs. sign_request (canned_lib resp) (demo_client sub) 1588591511721
     (new_request (demo_client sub) (ascii ''POST'') (ascii ''orders'') None (Some j))
     = Inr ((new_request (demo_client sub) (ascii ''POST'') (ascii ''orders'') None (Some j))\<lparr>r_headers := hs\<rparr>)"
  if "sub = None \<or> sub = Some (ascii ''my sub'' @ [233, 8364])"
proof -
  have q: "quote (ascii ''my sub'' @ [233, 8364]) = Inr (ascii ''my%20sub%C3%A9%E2%82%AC'')"
    by (simp add: quote_def ascii_def utf8_char_def quote_byte_def always_safe_def hex_upper_def Let_def)
  have n: "ascii ''my sub'' @ [233, 8364] \<noteq> []" by (simp add: ascii_def)
  have pl: "signature_payload 1588591511721
         \<lparr>p_method = ascii ''POST'', p_path_url = ascii ''/api/orders'',
            p_headers = Map.empty, p_body = Some ''{}''\<rparr> = Inr ''1588591511721POST/api/orders{}''"
    by (simp add: signature_payload_def demo_payload_post)
  have p: "prepare (canned_lib resp) (new_request (demo_client s) (ascii ''POST'') (ascii ''orders'') None (Some j))
     = Inr \<lparr>p_method = ascii ''POST'', p_path_url = ascii ''/api/orders'',
           p_headers = Map.empty, p_body = Some ''{}''\<rparr>" for s
    using demo_prepare_post [where hs = Map.empty] by (simp add: new_request_def)
  have sn: "subaccount_name (demo_client s) = s" for s by (simp add: demo_client_def)
  from that show ?thesis
  proof
    assume "sub = None"
    then show ?thesis
      by (simp add: sign_request_def p pl demo_secret sn) blast
  next
    assume "sub = Some (ascii ''my sub'' @ [233, 8364])"
    then show ?thesis
      by (simp add: sign_request_def p pl demo_secret sn q n) blast
  qed
qed

lemma demo_get_futures:
  "get' (canned_lib resp) (demo_client None) 1588591511721 (ascii ''futures'') None
   = process_response resp"
proof -
  let ?req = "new_request (demo_client None) (ascii ''GET'') (ascii ''futures'') None None"
  have p: "prepare (canned_lib resp) (?req\<lparr>r_headers := hs\<rparr>)
     = Inr \<lparr>p_method = ascii ''GET'', p_path_url = ascii ''/api/futures'',
             p_headers = hs, p_body = None\<rparr>" for hs
    by (simp add: prepare_def canned_lib_def demo_client_def new_request_def upper_methods)
      (simp add: ascii_def)
  have p0: "prepare (canned_lib resp) ?req
     = Inr \<lparr>p_method = ascii ''GET'', p_path_url = ascii ''/api/futures'',
             p_headers = Map.empty, p_body = None\<rparr>"
    using p [of Map.empty] by (simp add: new_request_def)
  have e: "encode (str_int 1588591511721 @ ascii ''GET'' @ ascii ''/api/futures'')
             = Inr ''1588591511721GET/api/futures''"
    by (simp add: demo_ts flip: ascii_append) (simp add: ascii_def utf8_char_def char_of_eq_iff)
  have "\<exists>hs. sign_request (canned_lib resp) (demo_client None) 1588591511721 ?req
          = Inr (?req\<lparr>r_headers := hs\<rparr>)"
    by (simp add: sign_request_def p0 signature_payload_def e demo_secret demo_subaccount) blast
  then obtain hs where "sign_request (canned_lib resp) (demo_client None) 1588591511721 ?req
          = Inr (?req\<lparr>r_headers := hs\<rparr>)" ..
  then have "transmitted (canned_lib resp) (demo_client None) 1588591511721 ?req
     = Inr \<lparr>p_method = ascii ''GET'', p_path_url = ascii ''/api/futures'',
             p_headers = hs, p_body = None\<rparr>"
    by (simp add: transmitted_def p)
  then show ?thesis
    by (simp add: get'_def request'_def) (simp add: canned_lib_def)
qed

lemma demo_result: "process_response (demo_response r) = Inr r"
  by (simp add: process_response_def demo_response_def)

lemma demo_futures_records: "\<forall>f\<in>set demo_futures. future_record f"
  by (simp add: demo_futures_def demo_future_def future_record_def field_def is_bool_def)

lemma demo_future_fields:
  "field (demo_future n t en ex u e) (ascii ''type'') = Some (PStr (ascii t))"
  "field (demo_future n t en ex u e) (ascii ''enabled'') = Some (PBool en)"
  "field (demo_future n t en ex u e) (ascii ''expired'') = Some (PBool ex)"
  "field (demo_future n t en ex u e) (ascii ''underlying'') = Some (PStr (ascii u))"
  "field (demo_future n t en ex u e) (ascii ''expiry'') = Some (PInt e)"
  by (simp_all add: demo_future_def field_def)

lemma demo_future_preds:
  "listed (demo_future n t en ex u e) \<longleftrightarrow> t = ''future'' \<and> en \<and> \<not> ex"
  "tracks (ascii a) (demo_future n t en ex u e) \<longleftrightarrow> u = a"
  "expiry_num (demo_future n t en ex u e) = Some (of_int e)"
  by (auto simp: listed_def tracks_def expiry_num_def demo_future_fields)

lemma demo_future_expiry_le:
  "expiry_le (demo_future n t en ex u e) (demo_future n' t' en' ex' u' e') \<longleftrightarrow> e \<le> e'"
  by (simp add: expiry_le_def demo_future_fields)

section \<open>Signing\<close>

lemma signature_payload_spec:
  "signature_payload ts p =
     (case encode (str_int ts @ p_method p @ p_path_url p) of
        Inl e \<Rightarrow> Inl e
      | Inr text \<Rightarrow> Inr (text @ (case p_body p of None \<Rightarrow> [] | Some b \<Rightarrow> b)))"
  by (simp add: signature_payload_def split: sum.splits option.splits)

lemma prepare_method: "prepare L req = Inr p \<Longrightarrow> p_method p = upper (r_method req)"
  by (auto simp: prepare_def split: sum.splits option.splits)

lemma prepare_headers_irrelevant:
  assumes "prepare L (req\<lparr>r_headers := hs\<rparr>) = Inr p'" and "prepare L req = Inr p"
  shows "p_method p' = p_method p \<and> p_path_url p' = p_path_url p \<and> p_body p' = p_body p"
  using assms by (auto simp: prepare_def split: sum.splits option.splits)

lemma sign_requestD:
  assumes "sign_request L C ts req = Inr req'"
  shows "\<exists>p payload key hs. prepare L req = Inr p \<and> signature_payload ts p = Inr payload
           \<and> encode (api_secret C) = Inr key \<and> req' = req\<lparr>r_headers := hs\<rparr>
           \<and> hs (ascii ''FTX-SIGN'') = Some (hexdigest (hmac_sha256 L key payload))
           \<and> hs (ascii ''FTX-KEY'') = Some (api_key C)
           \<and> hs (ascii ''FTX-TS'') = Some (str_int ts)
           \<and> (\<forall>name. subaccount_name C = Some name \<and> name \<noteq> [] \<longrightarrow>
                 (\<exists>q. quote name = Inr q \<and> hs (ascii ''FTX-SUBACCOUNT'') = Some q))"
  using assms unfolding sign_request_def
  by (auto simp: Let_def split: sum.splits option.splits if_splits)

lemma sign_request_returns:
  assumes "prepare L req = Inr p"
    and "list_all scalar (r_method req)" and "list_all scalar (p_path_url p)"
    and "list_all scalar (api_secret C)"
    and "\<forall>name. subaccount_name C = Some name \<longrightarrow> list_all scalar name"
  shows "\<exists>req'. sign_request L C ts req = Inr req'"
proof -
  have "list_all scalar (str_int ts @ p_method p @ p_path_url p)"
    using assms(2,3) prepare_method [OF assms(1)] by (simp add: str_int_scalar upper_scalar)
  then obtain pre where "encode (str_int ts @ p_method p @ p_path_url p) = Inr pre"
    using encode_returns by blast
  then obtain payload where pl: "signature_payload ts p = Inr payload"
    by (auto simp: signature_payload_spec)
  obtain key where key: "encode (api_secret C) = Inr key"
    using assms(4) encode_returns by blast
  show ?thesis
  proof (cases "subaccount_name C")
    case None
    then show ?thesis by (simp add: sign_request_def assms(1) pl key)
  next
    case (Some name)
    then obtain q where "quote name = Inr q" using assms(5) quote_returns by blast
    with Some show ?thesis by (simp add: sign_request_def assms(1) pl key Let_def)
  qed
qed

text \<open>
  C1. Whenever \<open>_sign_request\<close> returns, the \<open>FTX-SIGN\<close> header of the request is the
  lower-case hexadecimal digest of HMAC-SHA256, keyed by the encoded API secret, over
  the encoding of the timestamp in decimal, the upper-cased method and the path and
  query of the prepared request, followed by the body when there is one and by nothing
  otherwise.
\<close>

theorem sign_request_signature:
  assumes "sign_request L C ts req = Inr req'"
  shows "\<exists>p key pre. prepare L req = Inr p \<and> p_method p = upper (r_method req)
           \<and> encode (api_secret C) = Inr key
           \<and> encode (str_int ts @ p_method p @ p_path_url p) = Inr pre
           \<and> r_headers req' (ascii ''FTX-SIGN'') =
               Some (hexdigest (hmac_sha256 L key
                       (pre @ (case p_body p of None \<Rightarrow> [] | Some b \<Rightarrow> b))))"
proof -
  from sign_requestD [OF assms] obtain p payload key hs where
    p: "prepare L req = Inr p" and pl: "signature_payload ts p = Inr payload"
    and key: "encode (api_secret C) = Inr key" and req': "req' = req\<lparr>r_headers := hs\<rparr>"
    and sig: "hs (ascii ''FTX-SIGN'') = Some (hexdigest (hmac_sha256 L key payload))"
    by blast
  from pl obtain pre where
    pre: "encode (str_int ts @ p_method p @ p_path_url p) = Inr pre"
    and payload: "payload = pre @ (case p_body p of None \<Rightarrow> [] | Some b \<Rightarrow> b)"
    by (auto simp: signature_payload_spec split: sum.splits)
  show ?thesis
    using p prepare_method [OF p] key pre sig unfolding req' payload by simp
qed

theorem sign_request_signature_witness:
  "\<exists>req'. sign_request (canned_lib (demo_response PNone)) (demo_client None) 1588591511721
       (new_request (demo_client None) (ascii ''GET'') (ascii ''markets'') None None) = Inr req'
     \<and> r_headers req' (ascii ''FTX-SIGN'') =
         Some (hexdigest (hmac_sha256 (canned_lib (demo_response PNone)) ''secret''
                 ''1588591511721GET/api/markets''))"
proof -
  let ?L = "canned_lib (demo_response PNone)"
  let ?req = "new_request (demo_client None) (ascii ''GET'') (ascii ''markets'') None None"
  from demo_sign_get obtain req' where
    s: "sign_request ?L (demo_client None) 1588591511721 ?req = Inr req'" by blast
  from sign_request_signature [OF s] obtain p key pre where
    p: "prepare ?L ?req = Inr p" and key: "encode (api_secret (demo_client None)) = Inr key"
    and pre: "encode (str_int 1588591511721 @ p_method p @ p_path_url p) = Inr pre"
    and sig: "r_headers req' (ascii ''FTX-SIGN'') =
       Some (hexdigest (hmac_sha256 ?L key (pre @ (case p_body p of None \<Rightarrow> [] | Some b \<Rightarrow> b))))"
    by blast
  from p have p': "p = \<lparr>p_method = ascii ''GET'', p_path_url = ascii ''/api/markets'',
           p_headers = Map.empty, p_body = None\<rparr>"
    by (simp add: demo_prepare_get)
  from key have key': "key = ''secret''" by (simp add: demo_secret)
  from pre have pre': "pre = ''1588591511721GET/api/markets''"
    unfolding p' by (simp add: demo_payload_get)
  show ?thesis using s sig unfolding p' key' pre' by simp
qed

text \<open>
  C2. Whenever \<open>_request\<close> hands a prepared request to the session, its method, its
  path and query and its body are those of the prepared request inside
  \<open>_sign_request\<close>, and the \<open>FTX-SIGN\<close> header is the digest over the signature payload
  of the transmitted request itself.
\<close>

theorem transmitted_is_signed:
  assumes "transmitted L C ts req = Inr p'"
  shows "\<exists>req' p key payload.
           sign_request L C ts req = Inr req' \<and> prepare L req = Inr p \<and> prepare L req' = Inr p'
           \<and> p_method p' = p_method p \<and> p_path_url p' = p_path_url p \<and> p_body p' = p_body p
           \<and> encode (api_secret C) = Inr key \<and> signature_payload ts p' = Inr payload
           \<and> r_headers req' (ascii ''FTX-SIGN'') = Some (hexdigest (hmac_sha256 L key payload))"
proof -
  from assms obtain req' where s: "sign_request L C ts req = Inr req'"
    and p': "prepare L req' = Inr p'"
    by (auto simp: transmitted_def split: sum.splits)
  from sign_requestD [OF s] obtain p payload key hs where
    p: "prepare L req = Inr p" and pl: "signature_payload ts p = Inr payload"
    and key: "encode (api_secret C) = Inr key" and req': "req' = req\<lparr>r_headers := hs\<rparr>"
    and sig: "hs (ascii ''FTX-SIGN'') = Some (hexdigest (hmac_sha256 L key payload))"
    by blast
  have same: "p_method p' = p_method p \<and> p_path_url p' = p_path_url p \<and> p_body p' = p_body p"
    using p' p unfolding req' by (rule prepare_headers_irrelevant)
  then have "signature_payload ts p' = signature_payload ts p"
    by (simp add: signature_payload_def cong: sum.case_cong option.case_cong)
  with pl have "signature_payload ts p' = Inr payload" by simp
  moreover have "r_headers req' (ascii ''FTX-SIGN'') = Some (hexdigest (hmac_sha256 L key payload))"
    using sig unfolding req' by simp
  ultimately show ?thesis using s p p' same key by blast
qed

theorem transmitted_is_signed_witness:
  "\<exists>p'. transmitted (canned_lib (demo_response PNone)) (demo_client None) 1588591511721
       (new_request (demo_client None) (ascii ''POST'') (ascii ''orders'') None (Some (PDict []))) = Inr p'
     \<and> p_method p' = ascii ''POST'' \<and> p_path_url p' = ascii ''/api/orders'' \<and> p_body p' = Some ''{}''
     \<and> p_headers p' (ascii ''FTX-SIGN'') =
         Some (hexdigest (hmac_sha256 (canned_lib (demo_response PNone)) ''secret''
                 ''1588591511721POST/api/orders{}''))"
proof -
  let ?L = "canned_lib (demo_response PNone)"
  let ?C = "demo_client None"
  let ?req = "new_request ?C (ascii ''POST'') (ascii ''orders'') None (Some (PDict []))"
  from demo_sign_post [of None] obtain hs where
    s: "sign_request ?L ?C 1588591511721 ?req = Inr (?req\<lparr>r_headers := hs\<rparr>)" by blast
  let ?p' = "\<lparr>p_method = ascii ''POST'', p_path_url = ascii ''/api/orders'',
           p_headers = hs, p_body = Some ''{}''\<rparr>"
  have t: "transmitted ?L ?C 1588591511721 ?req = Inr ?p'"
    by (simp add: transmitted_def s demo_prepare_post)
  from transmitted_is_signed [OF t] obtain req' key payload where
    s': "sign_request ?L ?C 1588591511721 ?req = Inr req'"
    and key: "encode (api_secret ?C) = Inr key"
    and pl: "signature_payload 1588591511721 ?p' = Inr payload"
    and sig: "r_headers req' (ascii ''FTX-SIGN'') = Some (hexdigest (hmac_sha256 ?L key payload))"
    by blast
  from s s' have req': "req' = ?req\<lparr>r_headers := hs\<rparr>" by simp
  from key have key': "key = ''secret''" by (simp add: demo_secret)
  from pl have pl': "payload = ''1588591511721POST/api/orders{}''"
    by (simp add: signature_payload_def demo_payload_post)
  have "hs (ascii ''FTX-SIGN'') = Some (hexdigest (hmac_sha256 ?L ''secret'' ''1588591511721POST/api/orders{}''))"
    using sig unfolding req' key' pl' by simp
  with t show ?thesis by simp
qed

text \<open>
  C9. Whenever \<open>_sign_request\<close> returns for a client with a non-empty subaccount name,
  the \<open>FTX-SUBACCOUNT\<close> header is the percent-encoding of the name, and
  percent-decoding the header gives the name back.
\<close>

theorem subaccount_header_round_trip:
  assumes "sign_request L C ts req = Inr req'"
    and "subaccount_name C = Some name" and "name \<noteq> []"
  shows "\<exists>q. quote name = Inr q \<and> r_headers req' (ascii ''FTX-SUBACCOUNT'') = Some q
           \<and> unquote q = Some name"
proof -
  from sign_requestD [OF assms(1)] assms(2,3) obtain hs q where
    req': "req' = req\<lparr>r_headers := hs\<rparr>" and q: "quote name = Inr q"
    and h: "hs (ascii ''FTX-SUBACCOUNT'') = Some q"
    by blast
  from quote_unquote [OF q] have "unquote q = Some name" .
  with q h show ?thesis unfolding req' by simp
qed

theorem subaccount_header_round_trip_witness:
  "\<exists>req'. sign_request (canned_lib (demo_response PNone))
        (demo_client (Some (ascii ''my sub'' @ [233, 8364]))) 1588591511721
        (new_request (demo_client (Some (ascii ''my sub'' @ [233, 8364])))
           (ascii ''POST'') (ascii ''orders'') None (Some (PDict []))) = Inr req'
     \<and> r_headers req' (ascii ''FTX-SUBACCOUNT'') = Some (ascii ''my%20sub%C3%A9%E2%82%AC'')
     \<and> unquote (ascii ''my%20sub%C3%A9%E2%82%AC'') = Some (ascii ''my sub'' @ [233, 8364])"
proof -
  let ?L = "canned_lib (demo_response PNone)"
  let ?name = "ascii ''my sub'' @ [233, 8364]"
  let ?C = "demo_client (Some ?name)"
  let ?req = "new_request ?C (ascii ''POST'') (ascii ''orders'') None (Some (PDict []))"
  from demo_sign_post [of "Some ?name"] obtain req' where
    s: "sign_request ?L ?C 1588591511721 ?req = Inr req'" by blast
  have sn: "subaccount_name ?C = Some ?name" by (simp add: demo_client_def)
  have n: "?name \<noteq> []" by (simp add: ascii_def)
  from subaccount_header_round_trip [OF s sn n] obtain q where
    q: "quote ?name = Inr q" and h: "r_headers req' (ascii ''FTX-SUBACCOUNT'') = Some q"
    and u: "unquote q = Some ?name"
    by blast
  have "quote ?name = Inr (ascii ''my%20sub%C3%A9%E2%82%AC'')"
    by (simp add: quote_def ascii_def utf8_char_def quote_byte_def always_safe_def hex_upper_def Let_def)
  with q have "q = ascii ''my%20sub%C3%A9%E2%82%AC''" by simp
  with s h u show ?thesis by blast
qed

section \<open>Response normalisation\<close>

text \<open>
  C3. For a response whose body is a JSON object: when \<open>success\<close> is false and the
  envelope has an \<open>error\<close>, the call raises \<open>Exception\<close> with that error as its
  message; when \<open>success\<close> is true and the envelope has a \<open>result\<close>, the call returns
  that result unchanged.
\<close>

theorem process_response_envelope:
  "json resp = Some (PDict d) \<Longrightarrow>
     (map_of d (ascii ''success'') = Some (PBool False) \<and> map_of d (ascii ''error'') = Some msg
        \<longrightarrow> process_response resp = Inl (ExchangeError msg))
   \<and> (map_of d (ascii ''success'') = Some (PBool True) \<and> map_of d (ascii ''result'') = Some r
        \<longrightarrow> process_response resp = Inr r)"
  by (simp add: process_response_def)

theorem process_response_envelope_witness:
  "process_response \<lparr>status_code = 200, json = Some (PDict [(ascii ''success'', PBool True), (ascii ''result'', PList [PInt 1, PInt 2, PInt 3])])\<rparr>
     = Inr (PList [PInt 1, PInt 2, PInt 3])
   \<and> process_response \<lparr>status_code = 400, json = Some (PDict [(ascii ''success'', PBool False), (ascii ''error'', PStr (ascii ''Invalid parameter''))])\<rparr>
     = Inl (ExchangeError (PStr (ascii ''Invalid parameter'')))"
  using process_response_envelope [of "\<lparr>status_code = 200, json = Some (PDict [(ascii ''success'', PBool True), (ascii ''result'', PList [PInt 1, PInt 2, PInt 3])])\<rparr>"
      "[(ascii ''success'', PBool True), (ascii ''result'', PList [PInt 1, PInt 2, PInt 3])]" "PNone" "PList [PInt 1, PInt 2, PInt 3]"]
    process_response_envelope [of "\<lparr>status_code = 400, json = Some (PDict [(ascii ''success'', PBool False), (ascii ''error'', PStr (ascii ''Invalid parameter''))])\<rparr>"
      "[(ascii ''success'', PBool False), (ascii ''error'', PStr (ascii ''Invalid parameter''))]" "PStr (ascii ''Invalid parameter'')" "PNone"]
  by simp

text \<open>
  C4. For a response whose body is not JSON the call always fails, and never with an
  error taken from the body: with the HTTP status error when the status is from 400 to
  599, and with the parser's own error for any other status, 2xx included.
\<close>

theorem process_response_not_json:
  "json resp = None \<Longrightarrow>
     process_response resp =
       Inl (if 400 \<le> status_code resp \<and> status_code resp < 600
            then HTTPError (status_code resp) else JSONDecodeError)
     \<and> (\<forall>v. process_response resp \<noteq> Inr v)
     \<and> (\<forall>m. process_response resp \<noteq> Inl (ExchangeError m))"
  by (simp add: process_response_def)

theorem process_response_not_json_witness:
  "process_response \<lparr>status_code = 502, json = None\<rparr> = Inl (HTTPError 502)
   \<and> process_response \<lparr>status_code = 200, json = None\<rparr> = Inl JSONDecodeError"
  using process_response_not_json [of "\<lparr>status_code = 502, json = None\<rparr>"]
    process_response_not_json [of "\<lparr>status_code = 200, json = None\<rparr>"]
  by simp

section \<open>Futures\<close>

text \<open>
  C6. When the exchange returns a list of futures (each entry an object with a type
  and boolean \<open>enabled\<close> and \<open>expired\<close> flags), \<open>get_all_futures\<close> returns exactly the
  entries of type \<open>"future"\<close> that are enabled and not expired, in their order and
  unchanged.
\<close>

theorem get_all_futures_filter:
  assumes "get' L C ts (ascii ''futures'') None = Inr (PList fs)"
    and "\<forall>f\<in>set fs. future_record f"
  shows "get_all_futures L C ts = Inr (filter listed fs)"
  using assms by (rule get_all_futures_listed)

theorem get_all_futures_filter_witness:
  "get_all_futures (canned_lib (demo_response (PList demo_futures))) (demo_client None) 1588591511721
   = Inr [demo_future ''BTC-0924'' ''future'' True False ''BTC'' 3000,
          demo_future ''BTC-0326'' ''future'' True False ''BTC'' 1000,
          demo_future ''ETH-0326'' ''future'' True False ''ETH'' 800,
          demo_future ''BTC-0626'' ''future'' True False ''BTC'' 2000]"
proof -
  have g: "get' (canned_lib (demo_response (PList demo_futures))) (demo_client None) 1588591511721
             (ascii ''futures'') None = Inr (PList demo_futures)"
    by (simp add: demo_get_futures demo_result)
  have "filter listed demo_futures
     = [demo_future ''BTC-0924'' ''future'' True False ''BTC'' 3000,
        demo_future ''BTC-0326'' ''future'' True False ''BTC'' 1000,
        demo_future ''ETH-0326'' ''future'' True False ''ETH'' 800,
        demo_future ''BTC-0626'' ''future'' True False ''BTC'' 2000]"
    by (simp add: demo_futures_def demo_future_def listed_def field_def)
  with get_all_futures_filter [OF g demo_futures_records] show ?thesis by simp
qed

text \<open>
  C7. Among the listed futures of the exchange's list that track the given underlying
  (\<open>'BTC'\<close> when none is given), \<open>get_next_underlying_future\<close> returns one that expires
  no later than any of them; when there is none the call fails with the error of
  \<open>min\<close> on an empty sequence. The expiries are all numbers or all strings.
\<close>

theorem get_next_underlying_future_min:
  assumes "get' L C ts (ascii ''futures'') None = Inr (PList fs)"
    and "\<forall>f\<in>set fs. future_record f"
    and "\<forall>f\<in>set fs. listed f \<longrightarrow> field f (ascii ''underlying'') \<noteq> None"
    and "comparable_expiries (filter (\<lambda>f. listed f \<and> tracks (default (ascii ''BTC'') underlying) f) fs)"
  shows "(if filter (\<lambda>f. listed f \<and> tracks (default (ascii ''BTC'') underlying) f) fs = []
          then get_next_underlying_future L C ts underlying = Inl MinOfEmpty
          else \<exists>m. get_next_underlying_future L C ts underlying = Inr m
                 \<and> m \<in> set fs \<and> listed m \<and> tracks (default (ascii ''BTC'') underlying) m
                 \<and> (\<forall>g\<in>set fs. listed g \<and> tracks (default (ascii ''BTC'') underlying) g \<longrightarrow>
                      expiry_le m g))"
proof -
  let ?u = "default (ascii ''BTC'') underlying"
  let ?cands = "filter (\<lambda>f. listed f \<and> tracks ?u f) fs"
  have all: "get_all_futures L C ts = Inr (filter listed fs)"
    using assms(1,2) by (rule get_all_futures_listed)
  have "comprehension (has_underlying ?u) (filter listed fs) = Inr (filter (tracks ?u) (filter listed fs))"
    using assms(3) by (intro comprehension_filter) (simp add: has_underlying_tracks)
  then have und: "get_all_underlying_futures L C ts underlying = Inr ?cands"
    using all by (simp add: get_all_underlying_futures_def conj_commute)
  show ?thesis
  proof (cases "?cands = []")
    case True
    then show ?thesis using und by (simp add: get_next_underlying_future_def min_by_expiry_def)
  next
    case False
    from min_by_expiry_least [OF assms(4) False] obtain m where
      m: "min_by_expiry ?cands = Inr m" "m \<in> set ?cands" "\<forall>g\<in>set ?cands. expiry_le m g"
      by blast
    have "get_next_underlying_future L C ts underlying = Inr m"
      using und m(1) by (simp add: get_next_underlying_future_def)
    then show ?thesis using False m(2,3) by auto
  qed
qed

theorem get_next_underlying_future_min_witness:
  "get_next_underlying_future (canned_lib (demo_response (PList demo_futures))) (demo_client None)
     1588591511721 None = Inr (demo_future ''BTC-0326'' ''future'' True False ''BTC'' 1000)
   \<and> get_next_underlying_future (canned_lib (demo_response (PList demo_futures))) (demo_client None)
     1588591511721 (Some (ascii ''XRP'')) = Inl MinOfEmpty"
proof -
  let ?L = "canned_lib (demo_response (PList demo_futures))"
  let ?C = "demo_client None"
  have g: "get' ?L ?C 1588591511721 (ascii ''futures'') None = Inr (PList demo_futures)"
    by (simp add: demo_get_futures demo_result)
  have u: "\<forall>f\<in>set demo_futures. listed f \<longrightarrow> field f (ascii ''underlying'') \<noteq> None"
    by (simp add: demo_futures_def demo_future_fields)
  have e: "comparable_expiries (filter (\<lambda>f. listed f \<and> tracks (default (ascii ''BTC'') w) f) demo_futures)" for w
    by (simp add: comparable_expiries_def list_all_iff demo_futures_def demo_future_preds)
  have btc: "default (ascii ''BTC'') None = ascii ''BTC''"
    and xrp: "default (ascii ''BTC'') (Some (ascii ''XRP'')) = ascii ''XRP''"
    by (simp_all add: default_def)
  have "filter (\<lambda>f. listed f \<and> tracks (default (ascii ''BTC'') (Some (ascii ''XRP''))) f) demo_futures = []"
    unfolding xrp by (simp add: demo_futures_def demo_future_preds)
  with get_next_underlying_future_min [OF g demo_futures_records u e, of "Some (ascii ''XRP'')"]
  have none: "get_next_underlying_future ?L ?C 1588591511721 (Some (ascii ''XRP'')) = Inl MinOfEmpty"
    by simp
  have "filter (\<lambda>f. listed f \<and> tracks (default (ascii ''BTC'') None) f) demo_futures \<noteq> []"
    unfolding btc by (simp add: demo_futures_def demo_future_preds)
  with get_next_underlying_future_min [OF g demo_futures_records u e, of None]
  obtain m where m: "get_next_underlying_future ?L ?C 1588591511721 None = Inr m"
    and mem: "m \<in> set demo_futures" and l: "listed m" and t: "tracks (ascii ''BTC'') m"
    and least: "\<forall>g\<in>set demo_futures. listed g \<and> tracks (ascii ''BTC'') g \<longrightarrow> expiry_le m g"
    unfolding btc by auto
  from least have "expiry_le m (demo_future ''BTC-0326'' ''future'' True False ''BTC'' 1000)"
    by (simp add: demo_futures_def demo_future_preds)
  with mem l t have "m = demo_future ''BTC-0326'' ''future'' True False ''BTC'' 1000"
    by (auto simp: demo_futures_def demo_future_preds demo_future_expiry_le)
  with m none show ?thesis by simp
qed

section \<open>Orders\<close>

text \<open>
  C8. \<open>place_order\<close> posts a dict with its nine arguments under the nine keys, an
  omitted optional argument by its default; with side \<open>"buy"\<close>, size 1.5 and nothing
  else given, the price and the client id are \<open>None\<close>, the type is \<open>"market"\<close> and the
  three flags are false, all nine keys present.
\<close>

theorem place_order_payload:
  "place_order L C ts market side size' price type' reduce_only ioc post_only client_id =
     request' L C ts (ascii ''POST'') (ascii ''orders'') None
       (Some (PDict
          [(ascii ''market'', market),
           (ascii ''side'', side),
           (ascii ''price'', case price of None \<Rightarrow> PNone | Some v \<Rightarrow> v),
           (ascii ''size'', size'),
           (ascii ''type'', case type' of None \<Rightarrow> PStr (ascii ''market'') | Some v \<Rightarrow> v),
           (ascii ''reduceOnly'', case reduce_only of None \<Rightarrow> PBool False | Some v \<Rightarrow> v),
           (ascii ''ioc'', case ioc of None \<Rightarrow> PBool False | Some v \<Rightarrow> v),
           (ascii ''postOnly'', case post_only of None \<Rightarrow> PBool False | Some v \<Rightarrow> v),
           (ascii ''clientId'', case client_id of None \<Rightarrow> PNone | Some v \<Rightarrow> v)]))
   \<and> place_order L C ts market (PStr (ascii ''buy'')) (PFloat 1.5) None None None None None None =
     request' L C ts (ascii ''POST'') (ascii ''orders'') None
       (Some (PDict
          [(ascii ''market'', market),
           (ascii ''side'', PStr (ascii ''buy'')),
           (ascii ''price'', PNone),
           (ascii ''size'', PFloat 1.5),
           (ascii ''type'', PStr (ascii ''market'')),
           (ascii ''reduceOnly'', PBool False),
           (ascii ''ioc'', PBool False),
           (ascii ''postOnly'', PBool False),
           (ascii ''clientId'', PNone)]))"
  by (simp add: place_order_def post'_def default_def)

text \<open>
  C10. \<open>get_order_history\<close> without an order type passes \<open>"market"\<close> under
  \<open>orderType\<close> in the query parameters, and each of \<open>market\<close>, \<open>side\<close>, \<open>start_time\<close> and
  \<open>end_time\<close> that is left out as \<open>None\<close> under its key.
\<close>

theorem get_order_history_defaults:
  "get_order_history L C ts market side None start_time end_time =
     request' L C ts (ascii ''GET'') (ascii ''orders/history'')
       (Some (PDict
          [(ascii ''market'', case market of None \<Rightarrow> PNone | Some v \<Rightarrow> v),
           (ascii ''side'', case side of None \<Rightarrow> PNone | Some v \<Rightarrow> v),
           (ascii ''orderType'', PStr (ascii ''market'')),
           (ascii ''start_time'', case start_time of None \<Rightarrow> PNone | Some v \<Rightarrow> v),
           (ascii ''end_time'', case end_time of None \<Rightarrow> PNone | Some v \<Rightarrow> v)]))
       None
   \<and> get_order_history L C ts None None None None None =
     request' L C ts (ascii ''GET'') (ascii ''orders/history'')
       (Some (PDict
          [(ascii ''market'', PNone),
           (ascii ''side'', PNone),
           (ascii ''orderType'', PStr (ascii ''market'')),
           (ascii ''start_time'', PNone),
           (ascii ''end_time'', PNone)]))
       None"
  by (simp add: get_order_history_def get'_def default_def)

end
